theory Spec2Isabelle
  imports Complex_Main "HOL-Library.Sublist"
begin

section \<open>Values of the JavaScript runtime\<close>

text \<open>
  The values that the model sends as arguments of a function call are the values of JSON.
  The type annotations of the source are erased when it runs, and the service reads the
  arguments through a cast to \<open>any\<close>: a parameter that the source declares as a string can
  hold any of these values. An array or an object is kept opaque.
\<close>

datatype js_value = JsNull | JsBoolean bool | JsNumber real | JsString string | JsObject

datatype error = TypeError | ModelError string

text \<open>
  The service reads from its runtime: pseudo-random numbers, floating-point arithmetic,
  the conversion of a value to text, and the clock. A number is a double, modelled as the
  real it denotes; the result of an arithmetic operation or of reading a decimal is
  rounded to a double by \<open>fl\<close>, of which nothing is assumed. \<open>Math.random\<close> is a global
  generator: \<open>math_random rt k\<close> is the result of its call number \<open>k\<close>, and the number of
  calls made so far is threaded through every function that draws from it.
  \<open>value_text\<close> is the text of a value that is not a string, inside a template literal.
\<close>

record runtime =
  math_random :: "nat \<Rightarrow> real"
  fl :: "real \<Rightarrow> real"
  value_text :: "js_value \<Rightarrow> string"

text \<open>
  A label of a data point is the text of a date: \<open>now\<close> moved back by some hours, months
  or days, rendered by \<open>toLocaleTimeString\<close> or by \<open>toLocaleDateString\<close>. The text itself
  depends on the clock and the locale; the model keeps which instant is rendered and how.
\<close>

datatype js_date = HoursBefore nat | MonthsBefore nat | DaysBefore nat

datatype date_text = LocaleTimeString js_date | LocaleDateString js_date

definition digit_char :: "nat \<Rightarrow> char" where
  "digit_char d = ''0123456789'' ! d"

fun digits :: "nat \<Rightarrow> string" where
  "digits n = (if n < 10 then [digit_char n] else digits (n div 10) @ [digit_char (n mod 10)])"

definition hundredths :: "real \<Rightarrow> nat" where
  \<comment> \<open>the integer \<open>n\<close> of \<open>Number.prototype.toFixed\<close> for two digits: \<open>n / 100\<close> is nearest
      to \<open>|x|\<close>, the larger \<open>n\<close> on a tie\<close>
  "hundredths x = nat (round (\<bar>x\<bar> * 100))"

definition toFixed2 :: "real \<Rightarrow> string" where
  \<comment> \<open>\<open>x.toFixed(2)\<close>\<close>
  "toFixed2 x =
     (let n = hundredths x
      in (if x < 0 then ''-'' else '''') @ digits (n div 100) @ ''.'' @
         [digit_char (n div 10 mod 10), digit_char (n mod 10)])"

definition round2 :: "runtime \<Rightarrow> real \<Rightarrow> real" where
  \<comment> \<open>\<open>parseFloat(x.toFixed(2))\<close>: the double nearest to what the two-digit text denotes\<close>
  "round2 rt x =
     fl rt (if x < 0 then - (real (hundredths x) / 100) else real (hundredths x) / 100)"

definition number_to_string :: "real \<Rightarrow> string" where
  \<comment> \<open>the text of a number inside a template literal, for the double nearest to a number
      of at most two decimals (the only numbers the service prints this way): the
      decimals of that number, without trailing zeros\<close>
  "number_to_string x =
     (let n = hundredths x; frac = n mod 100
      in (if x < 0 \<and> n \<noteq> 0 then ''-'' else '''') @ digits (n div 100) @
         (if frac = 0 then ''''
          else if frac mod 10 = 0 then ''.'' @ [digit_char (frac div 10)]
          else ''.'' @ [digit_char (frac div 10), digit_char (frac mod 10)]))"

definition to_upper :: "char \<Rightarrow> char" where
  \<comment> \<open>the letters of ASCII; every other character is kept (the symbols of the sample
      inputs are ASCII; what \<open>toUpperCase\<close> does to other letters is not modelled)\<close>
  "to_upper c =
     (case map_of (zip ''abcdefghijklmnopqrstuvwxyz'' ''ABCDEFGHIJKLMNOPQRSTUVWXYZ'') c of
        None \<Rightarrow> c
      | Some u \<Rightarrow> u)"

definition toUpperCase :: "string \<Rightarrow> string" where
  "toUpperCase s = map to_upper s"

text \<open>
  Truthiness of a value, \<open>v || d\<close> on a property that may be absent, and the text of
  a value in a template literal.
\<close>

fun truthy_value :: "js_value \<Rightarrow> bool" where
  "truthy_value JsNull = False"
| "truthy_value (JsBoolean b) = b"
| "truthy_value (JsNumber x) = (x \<noteq> 0)"
| "truthy_value (JsString s) = (s \<noteq> [])"
| "truthy_value JsObject = True"

definition value_or :: "js_value option \<Rightarrow> js_value \<Rightarrow> js_value" where
  "value_or v d = (case v of None \<Rightarrow> d | Some x \<Rightarrow> if truthy_value x then x else d)"

definition template_text :: "runtime \<Rightarrow> js_value \<Rightarrow> string" where
  "template_text rt v = (case v of JsString s \<Rightarrow> s | _ \<Rightarrow> value_text rt v)"

section \<open>The mock chart generator\<close>

record ChartDataPoint =
  date :: date_text
  price :: real
  volume :: int

datatype Trend = up | down | neutral

record StockChartData =
  symbol :: string
  data :: "ChartDataPoint list"
  period :: js_value
  trend :: Trend

definition volatility :: "runtime \<Rightarrow> real" where
  "volatility rt = fl rt 0.02"

definition points_of :: "js_value \<Rightarrow> nat" where
  \<comment> \<open>the variable \<open>points\<close> after the four tests on the period\<close>
  "points_of p =
     (let points = 30;
          points = (if p = JsString ''1D'' then 24 else points);
          points = (if p = JsString ''1W'' then 7 else points);
          points = (if p = JsString ''1M'' then 30 else points);
          points = (if p = JsString ''1Y'' then 12 else points)
      in points)"

definition shifted_date :: "js_value \<Rightarrow> nat \<Rightarrow> js_date" where
  "shifted_date p i =
     (if p = JsString ''1D'' then HoursBefore i
      else if p = JsString ''1Y'' then MonthsBefore i
      else DaysBefore i)"

definition point_label :: "js_value \<Rightarrow> nat \<Rightarrow> date_text" where
  "point_label p i =
     (if p = JsString ''1D'' then LocaleTimeString (shifted_date p i)
      else LocaleDateString (shifted_date p i))"

text \<open>
  The state of the loop of \<open>generateMockChartData\<close>: the current price, the number of
  random draws made so far, and the array \<open>data\<close>.
\<close>

type_synonym chart_loop_state = "real \<times> nat \<times> ChartDataPoint list"

definition chart_body :: "runtime \<Rightarrow> js_value \<Rightarrow> nat \<Rightarrow> chart_loop_state \<Rightarrow> chart_loop_state" where
  "chart_body rt p i s =
     (case s of (currentPrice, k, dat) \<Rightarrow>
        let change = fl rt (fl rt (currentPrice * fl rt (math_random rt k - 0.5)) * volatility rt);
            currentPrice = fl rt (currentPrice + change)
        in (currentPrice, k + 2,
            dat @ [\<lparr>date = point_label p i,
                    price = round2 rt currentPrice,
                    volume = \<lfloor>fl rt (math_random rt (k + 1) * 10000)\<rfloor> + 1000\<rparr>]))"

text \<open>\<open>for (let i = points; i >= 0; i--)\<close>: the body runs for \<open>i = points, ..., 0\<close>.\<close>

primrec chart_loop :: "runtime \<Rightarrow> js_value \<Rightarrow> nat \<Rightarrow> chart_loop_state \<Rightarrow> chart_loop_state" where
  "chart_loop rt p 0 s = chart_body rt p 0 s"
| "chart_loop rt p (Suc i) s = chart_loop rt p i (chart_body rt p (Suc i) s)"

text \<open>
  Reading \<open>data[0].price\<close> and \<open>data[data.length - 1].price\<close> raises a \<open>TypeError\<close> on an
  empty array (the element is \<open>undefined\<close>).
\<close>

definition first_price :: "ChartDataPoint list \<Rightarrow> error + real" where
  "first_price dat = (case dat of [] \<Rightarrow> Inl TypeError | q # _ \<Rightarrow> Inr (price q))"

definition last_price :: "ChartDataPoint list \<Rightarrow> error + real" where
  "last_price dat = (if dat = [] then Inl TypeError else Inr (price (last dat)))"

definition trend_of :: "real \<Rightarrow> real \<Rightarrow> Trend" where
  "trend_of start endp = (if endp > start then up else if endp < start then down else neutral)"

text \<open>
  \<open>generateMockChartData rt k symbol period\<close>, where \<open>k\<close> random numbers have been drawn
  before the call, returns the chart and the number of draws after it. The last thing
  it evaluates is \<open>symbol.toUpperCase()\<close>, which raises a \<open>TypeError\<close> when the symbol is
  not a string; the draws of the loop are made by then.
\<close>

definition generateMockChartData ::
    "runtime \<Rightarrow> nat \<Rightarrow> js_value \<Rightarrow> js_value \<Rightarrow> (error \<times> nat) + (StockChartData \<times> nat)" where
  "generateMockChartData rt k sy p =
     (let startPrice = fl rt (fl rt (math_random rt k * 100) + 50);
          points = points_of p
      in case chart_loop rt p points (startPrice, k + 1, []) of (_, k', dat) \<Rightarrow>
           (case first_price dat of
              Inl e \<Rightarrow> Inl (e, k')
            | Inr start \<Rightarrow>
                (case last_price dat of
                   Inl e \<Rightarrow> Inl (e, k')
                 | Inr endp \<Rightarrow>
                     (case sy of
                        JsString s \<Rightarrow>
                          Inr (\<lparr>symbol = toUpperCase s, data = dat, period = p,
                                trend = trend_of start endp\<rparr>, k')
                      | _ \<Rightarrow> Inl (TypeError, k')))))"

section \<open>Tool declarations\<close>

record FunctionDeclaration =
  fd_name :: string
  fd_properties :: "(string \<times> string list) list"  \<comment> \<open>parameter name and its enum, if any\<close>
  fd_required :: "string list"

definition getStockChartFunction :: FunctionDeclaration where
  "getStockChartFunction =
     \<lparr>fd_name = ''getStockChart'',
      fd_properties = [(''symbol'', []), (''period'', [''1D'', ''1W'', ''1M'', ''1Y''])],
      fd_required = [''symbol'']\<rparr>"

definition getStockPriceFunction :: FunctionDeclaration where
  "getStockPriceFunction =
     \<lparr>fd_name = ''getStockPrice'',
      fd_properties = [(''symbol'', [])],
      fd_required = [''symbol'']\<rparr>"

definition functionDeclarations :: "FunctionDeclaration list" where
  "functionDeclarations = [getStockChartFunction, getStockPriceFunction]"

definition registered :: "string \<Rightarrow> bool" where
  "registered n = (n \<in> set (map fd_name functionDeclarations))"

section \<open>Messages, fragments and the session\<close>

text \<open>
  A function call of the model carries an id, a name and an argument object. The argument
  object is optional in the type of the client library, and the service reads it through a
  cast without a test: \<open>call_args\<close> is \<open>None\<close> when the call has no argument object, and
  otherwise the mapping from parameter names to values. A
  fragment of a streamed response carries an optional text, optional grounding chunks
  (read from the grounding metadata of the first candidate) and optional function calls.
\<close>

record FunctionCall =
  call_id :: string
  call_name :: string
  call_args :: "(string \<rightharpoonup> js_value) option"

record FunctionResponse =
  resp_id :: string
  resp_name :: string
  resp_result :: string

record Web =
  web_uri :: "string option"
  web_title :: "string option"

record GroundingChunk =
  web :: "Web option"

record GroundingSource =
  title :: string
  uri :: string

record Chunk =
  chunk_text :: "string option"
  chunk_groundingChunks :: "GroundingChunk list option"
  chunk_functionCalls :: "FunctionCall list option"

datatype message = UserText string | ToolResults "FunctionResponse list"

text \<open>
  The model is an external service. A streamed response is the list of the fragments it
  yields and then either its normal end or an error (a request that is rejected at once
  yields no fragment and an error). What the model answers is a function of the messages
  that the service has submitted to the session so far, in the order of submission:
  \<open>chat_history\<close> stands for what the model has been sent, not for the record that the
  client library keeps of the exchanges.
\<close>

type_synonym stream = "Chunk list \<times> error option"

type_synonym model = "message list \<Rightarrow> stream"

record Chat =
  chat_model :: string
  chat_tools :: "FunctionDeclaration list"
  chat_history :: "message list"

record GeminiService =
  apiKey :: string
  chatSession :: "Chat option"

text \<open>
  What a turn does to the outside, in the order in which it happens: calls of the two
  callbacks, messages submitted to the session, lines written to the error console.
\<close>

datatype event =
    OnChunk string
  | OnChart StockChartData
  | SendMessageStream message
  | ConsoleError string

record TurnResult =
  result_text :: string
  result_sources :: "GroundingSource list"

text \<open>JavaScript truthiness of an optional string: \<open>undefined\<close> and the empty string are falsy.\<close>

definition truthy :: "string option \<Rightarrow> bool" where
  "truthy v = (case v of None \<Rightarrow> False | Some s \<Rightarrow> s \<noteq> [])"

definition or_default :: "string option \<Rightarrow> string \<Rightarrow> string" where
  \<comment> \<open>\<open>v || d\<close>\<close>
  "or_default v d = (case v of None \<Rightarrow> d | Some s \<Rightarrow> if s = [] then d else s)"

section \<open>The service\<close>

text \<open>
  The constructor takes the value of \<open>process.env.API_KEY\<close> and returns the service and the
  lines it wrote to the error console. The client object of the library is determined by
  the key, and the session by its configuration (the text of the system instruction is
  left out); building them is taken to do no input or output and not to fail: every
  failure of the model shows when a message is submitted.
\<close>

definition GeminiService_constructor :: "string option \<Rightarrow> GeminiService \<times> string list" where
  "GeminiService_constructor env_key =
     (\<lparr>apiKey = or_default env_key [], chatSession = None\<rparr>,
      if \<not> truthy env_key then [''API_KEY is missing from environment variables''] else [])"

definition initializeChat :: "GeminiService \<Rightarrow> GeminiService" where
  "initializeChat svc =
     svc\<lparr>chatSession :=
           Some \<lparr>chat_model = ''gemini-2.5-flash'',
                 chat_tools = functionDeclarations,
                 chat_history = []\<rparr>\<rparr>"

text \<open>The variables of one call of \<open>sendMessage\<close>, with the state of the world it changes.\<close>

record turn_state =
  fullTextResponse :: string
  sources :: "GroundingSource list"
  draws :: nat
  history :: "message list"
  events :: "event list"

definition handle_text :: "Chunk \<Rightarrow> turn_state \<Rightarrow> turn_state" where
  "handle_text c t =
     (case chunk_text c of
        None \<Rightarrow> t
      | Some s \<Rightarrow>
          if s \<noteq> [] then t\<lparr>fullTextResponse := fullTextResponse t @ s,
                              events := events t @ [OnChunk s]\<rparr>
          else t)"

definition grounding_sources :: "GroundingChunk list \<Rightarrow> GroundingSource list" where
  "grounding_sources gs =
     concat (map (\<lambda>g. case web g of
                         None \<Rightarrow> []
                       | Some w \<Rightarrow>
                           if truthy (web_uri w) \<and> truthy (web_title w)
                           then [\<lparr>title = the (web_title w), uri = the (web_uri w)\<rparr>]
                           else []) gs)"

definition handle_grounding :: "Chunk \<Rightarrow> turn_state \<Rightarrow> turn_state" where
  "handle_grounding c t =
     (case chunk_groundingChunks c of
        None \<Rightarrow> t
      | Some gs \<Rightarrow> t\<lparr>sources := sources t @ grounding_sources gs\<rparr>)"

definition chart_result :: "string \<Rightarrow> real \<Rightarrow> string" where
  "chart_result sy pr =
     ''Chart generated for '' @ sy @ ''. Current price is '' @ number_to_string pr @ ''.''"

definition price_result :: "string \<Rightarrow> string \<Rightarrow> string" where
  "price_result sy pr = ''The current price of '' @ sy @ '' is $'' @ pr @ ''.''"

text \<open>
  The body of the loop over the function calls of a fragment: the new state and the
  response pushed, if any. Reading \<open>args.symbol\<close> comes first, before the name of the call
  is looked at, and raises a \<open>TypeError\<close> when the call has no argument object.
\<close>

definition execute_call ::
    "runtime \<Rightarrow> FunctionCall \<Rightarrow> turn_state \<Rightarrow>
     (error \<times> turn_state) + (turn_state \<times> FunctionResponse option)" where
  "execute_call rt call t =
     (case call_args call of
        None \<Rightarrow> Inl (TypeError, t)
      | Some args \<Rightarrow>
          (let sy = value_or (args ''symbol'') (JsString ''UNKNOWN'')
           in if call_name call = ''getStockChart'' then
                (let p = value_or (args ''period'') (JsString ''1M'')
                 in case generateMockChartData rt (draws t) sy p of
                      Inl (e, k') \<Rightarrow> Inl (e, t\<lparr>draws := k'\<rparr>)
                    | Inr (chartData, k') \<Rightarrow>
                        (let t' = t\<lparr>draws := k', events := events t @ [OnChart chartData]\<rparr>
                         in case last_price (data chartData) of
                              Inl e \<Rightarrow> Inl (e, t')
                            | Inr pr \<Rightarrow>
                                Inr (t', Some \<lparr>resp_id = call_id call,
                                               resp_name = call_name call,
                                               resp_result = chart_result (template_text rt sy) pr\<rparr>)))
              else if call_name call = ''getStockPrice'' then
                (let pr = toFixed2 (fl rt (fl rt (math_random rt (draws t) * 1000) + 10))
                 in Inr (t\<lparr>draws := draws t + 1\<rparr>,
                         Some \<lparr>resp_id = call_id call, resp_name = call_name call,
                               resp_result = price_result (template_text rt sy) pr\<rparr>))
              else Inr (t, None)))"

text \<open>
  The loop over the function calls. An error leaves the loop with the state reached, in
  which the callbacks made so far stay made.
\<close>

fun execute_calls ::
    "runtime \<Rightarrow> FunctionCall list \<Rightarrow> turn_state \<Rightarrow> FunctionResponse list \<Rightarrow>
     (error \<times> turn_state) + (turn_state \<times> FunctionResponse list)" where
  "execute_calls rt [] t functionResponses = Inr (t, functionResponses)"
| "execute_calls rt (call # calls) t functionResponses =
     (case execute_call rt call t of
        Inl x \<Rightarrow> Inl x
      | Inr (t', r) \<Rightarrow>
          execute_calls rt calls t'
            (functionResponses @ (case r of None \<Rightarrow> [] | Some fr \<Rightarrow> [fr])))"

text \<open>The loop over the stream that answers the tool results: text only.\<close>

fun tool_stream_loop :: "Chunk list \<Rightarrow> turn_state \<Rightarrow> turn_state" where
  "tool_stream_loop [] t = t"
| "tool_stream_loop (toolChunk # rest) t = tool_stream_loop rest (handle_text toolChunk t)"

definition submit_responses ::
    "model \<Rightarrow> FunctionResponse list \<Rightarrow> turn_state \<Rightarrow> (error \<times> turn_state) + turn_state" where
  "submit_responses m functionResponses t =
     (let msg = ToolResults functionResponses;
          t1 = t\<lparr>history := history t @ [msg], events := events t @ [SendMessageStream msg]\<rparr>
      in case m (history t1) of (toolChunks, failure) \<Rightarrow>
           (let t2 = tool_stream_loop toolChunks t1
            in case failure of None \<Rightarrow> Inr t2 | Some e \<Rightarrow> Inl (e, t2)))"

definition handle_function_calls ::
    "runtime \<Rightarrow> model \<Rightarrow> Chunk \<Rightarrow> turn_state \<Rightarrow> (error \<times> turn_state) + turn_state" where
  "handle_function_calls rt m c t =
     (case chunk_functionCalls c of
        None \<Rightarrow> Inr t
      | Some calls \<Rightarrow>
          if length calls > 0 then
            (case execute_calls rt calls t [] of
               Inl x \<Rightarrow> Inl x
             | Inr (t', functionResponses) \<Rightarrow>
                 if length functionResponses > 0 then submit_responses m functionResponses t'
                 else Inr t')
          else Inr t)"

definition process_chunk ::
    "runtime \<Rightarrow> model \<Rightarrow> Chunk \<Rightarrow> turn_state \<Rightarrow> (error \<times> turn_state) + turn_state" where
  "process_chunk rt m c t = handle_function_calls rt m c (handle_grounding c (handle_text c t))"

fun stream_loop ::
    "runtime \<Rightarrow> model \<Rightarrow> Chunk list \<Rightarrow> turn_state \<Rightarrow> (error \<times> turn_state) + turn_state" where
  "stream_loop rt m [] t = Inr t"
| "stream_loop rt m (c # rest) t =
     (case process_chunk rt m c t of
        Inl x \<Rightarrow> Inl x
      | Inr t' \<Rightarrow> stream_loop rt m rest t')"

text \<open>
  The outcome of a turn: the service and the number of random draws after it, everything
  the turn did to the outside before it returned, and what it returned (\<open>Inl\<close>: the
  promise is rejected with the error).
\<close>

record turn_outcome =
  service_after :: GeminiService
  draws_after :: nat
  trace :: "event list"
  returned :: "error + TurnResult"

definition store_history :: "GeminiService \<Rightarrow> message list \<Rightarrow> GeminiService" where
  "store_history svc h =
     svc\<lparr>chatSession := map_option (\<lambda>ch. ch\<lparr>chat_history := h\<rparr>) (chatSession svc)\<rparr>"

definition fail_turn :: "GeminiService \<Rightarrow> error \<Rightarrow> turn_state \<Rightarrow> turn_outcome" where
  \<comment> \<open>the \<open>catch\<close> block: log and rethrow\<close>
  "fail_turn svc e t =
     \<lparr>service_after = store_history svc (history t),
      draws_after = draws t,
      trace = events t @ [ConsoleError ''Gemini interaction error:''],
      returned = Inl e\<rparr>"

definition sendMessage ::
    "runtime \<Rightarrow> model \<Rightarrow> nat \<Rightarrow> GeminiService \<Rightarrow> string \<Rightarrow> turn_outcome" where
  "sendMessage rt m k svc0 msg =
     (let svc = (if chatSession svc0 = None then initializeChat svc0 else svc0);
          h = (case chatSession svc of None \<Rightarrow> [] | Some ch \<Rightarrow> chat_history ch) @ [UserText msg];
          t0 = \<lparr>fullTextResponse = [], sources = [], draws = k, history = h,
                events = [SendMessageStream (UserText msg)]\<rparr>
      in case m h of (chunks, failure) \<Rightarrow>
           (case stream_loop rt m chunks t0 of
              Inl (e, t) \<Rightarrow> fail_turn svc e t
            | Inr t \<Rightarrow>
                (case failure of
                   Some e \<Rightarrow> fail_turn svc e t
                 | None \<Rightarrow>
                     \<lparr>service_after = store_history svc (history t),
                      draws_after = draws t,
                      trace = events t,
                      returned = Inr \<lparr>result_text = fullTextResponse t,
                                      result_sources = sources t\<rparr>\<rparr>)))"

section \<open>Observations on a turn\<close>

text \<open>The texts delivered through \<open>onChunk\<close>, in the order of delivery.\<close>

fun delivered :: "event list \<Rightarrow> string list" where
  "delivered [] = []"
| "delivered (OnChunk s # es) = s # delivered es"
| "delivered (e # es) = delivered es"

text \<open>The ids of the function responses submitted to the model, in the order of submission.\<close>

fun submitted_ids :: "event list \<Rightarrow> string list" where
  "submitted_ids [] = []"
| "submitted_ids (SendMessageStream (ToolResults rs) # es) = map resp_id rs @ submitted_ids es"
| "submitted_ids (e # es) = submitted_ids es"

text \<open>The batches of function responses submitted to the model.\<close>

fun submitted_batches :: "event list \<Rightarrow> FunctionResponse list list" where
  "submitted_batches [] = []"
| "submitted_batches (SendMessageStream (ToolResults rs) # es) = rs # submitted_batches es"
| "submitted_batches (e # es) = submitted_batches es"

text \<open>The non-empty texts of a list of fragments.\<close>

definition texts_of :: "Chunk list \<Rightarrow> string list" where
  "texts_of cs =
     concat (map (\<lambda>c. case chunk_text c of
                         None \<Rightarrow> []
                       | Some s \<Rightarrow> if s \<noteq> [] then [s] else []) cs)"

text \<open>The state that a step reached, whether it failed or not.\<close>

fun state_reached :: "(error \<times> turn_state) + turn_state \<Rightarrow> turn_state" where
  "state_reached (Inl (e, t)) = t"
| "state_reached (Inr t) = t"

definition is_registered_call :: "FunctionCall \<Rightarrow> bool" where
  "is_registered_call call = registered (call_name call)"

text \<open>
  A function response summarises a chart: it answers \<open>getStockChart\<close> and its text is the
  sentence of the chart tool with the latest price of the chart.
\<close>

definition summarises :: "FunctionResponse \<Rightarrow> StockChartData \<Rightarrow> bool" where
  "summarises fr c =
     (resp_name fr = ''getStockChart'' \<and>
      prefix ''Chart generated for '' (resp_result fr) \<and>
      suffix (''. Current price is '' @ number_to_string (price (last (data c))) @ ''.'')
        (resp_result fr))"

text \<open>
  Every call of \<open>onChart\<close> in a trace is followed, after at most further calls of
  \<open>onChart\<close>, by the submission of a batch of responses that holds the summary of its
  chart.
\<close>

definition charts_settled :: "event list \<Rightarrow> bool" where
  "charts_settled tr =
     (\<forall>before c after. tr = before @ OnChart c # after \<longrightarrow>
        data c \<noteq> [] \<and>
        (\<exists>charts rs rest.
           after = map OnChart charts @ SendMessageStream (ToolResults rs) # rest \<and>
           (\<exists>fr\<in>set rs. summarises fr c)))"

text \<open>
  The same, for the trace of a turn that may have been cut off: the calls of \<open>onChart\<close>
  of a batch that was not run to its end are followed by nothing.
\<close>

definition charts_pending :: "event list \<Rightarrow> bool" where
  "charts_pending tr =
     (\<forall>before c after. tr = before @ OnChart c # after \<longrightarrow>
        data c \<noteq> [] \<and>
        ((\<exists>charts rs rest.
            after = map OnChart charts @ SendMessageStream (ToolResults rs) # rest \<and>
            (\<exists>fr\<in>set rs. summarises fr c)) \<or>
         (\<exists>charts. after = map OnChart charts)))"

text \<open>
  A request that the executor can run: it has an argument object, and if it asks for a
  chart, its symbol is absent, falsy or a string.
\<close>

definition well_formed_call :: "FunctionCall \<Rightarrow> bool" where
  "well_formed_call call =
     (case call_args call of
        None \<Rightarrow> False
      | Some args \<Rightarrow>
          call_name call = ''getStockChart'' \<longrightarrow>
          (case value_or (args ''symbol'') (JsString ''UNKNOWN'') of
             JsString s \<Rightarrow> True
           | _ \<Rightarrow> False))"

text \<open>The state that the executor reached, whether it failed or not.\<close>

fun executor_state :: "(error \<times> turn_state) + (turn_state \<times> 'a) \<Rightarrow> turn_state" where
  "executor_state (Inl (e, t)) = t"
| "executor_state (Inr (t, r)) = t"

text \<open>
  What holds of the calls of \<open>onChart\<close> after a step: all of them are settled if the step
  succeeded; the last ones may be left pending if it failed.
\<close>

fun outcome_settled :: "(error \<times> turn_state) + turn_state \<Rightarrow> bool" where
  "outcome_settled (Inl (e, t)) = charts_pending (events t)"
| "outcome_settled (Inr t) = charts_settled (events t)"

text \<open>A fragment carries a request for a registered tool.\<close>

definition has_registered_call :: "Chunk \<Rightarrow> bool" where
  "has_registered_call c =
     (case chunk_functionCalls c of
        None \<Rightarrow> False
      | Some calls \<Rightarrow> filter is_registered_call calls \<noteq> [])"

section \<open>Sample inputs\<close>

text \<open>
  A runtime whose random numbers are all one half. The numbers that the sample turns
  compute with it (500 and 510 for a price; 100, 0 and 5000 for a chart) are doubles, so
  that rounding to a double changes nothing.
\<close>

definition half :: runtime where
  "half = \<lparr>math_random = (\<lambda>k. 1 / 2), fl = (\<lambda>x. x), value_text = (\<lambda>v. ''[object Object]'')\<rparr>"

definition started_service :: GeminiService where
  "started_service = initializeChat (fst (GeminiService_constructor (Some ''k3y'')))"

definition text_chunk :: "string \<Rightarrow> Chunk" where
  "text_chunk s =
     \<lparr>chunk_text = Some s, chunk_groundingChunks = None, chunk_functionCalls = None\<rparr>"

definition calls_chunk :: "FunctionCall list \<Rightarrow> Chunk" where
  "calls_chunk calls =
     \<lparr>chunk_text = None, chunk_groundingChunks = None, chunk_functionCalls = Some calls\<rparr>"

definition price_call :: "string \<Rightarrow> string \<Rightarrow> FunctionCall" where
  "price_call i sy =
     \<lparr>call_id = i, call_name = ''getStockPrice'',
      call_args = Some [''symbol'' \<mapsto> JsString sy]\<rparr>"

definition chart_call :: "string \<Rightarrow> string \<Rightarrow> string \<Rightarrow> FunctionCall" where
  "chart_call i sy p =
     \<lparr>call_id = i, call_name = ''getStockChart'',
      call_args = Some [''symbol'' \<mapsto> JsString sy, ''period'' \<mapsto> JsString p]\<rparr>"

definition bare_chart_call :: FunctionCall where
  \<comment> \<open>a chart request with an empty argument object\<close>
  "bare_chart_call =
     \<lparr>call_id = ''c0'', call_name = ''getStockChart'', call_args = Some Map.empty\<rparr>"

definition bare_price_call :: FunctionCall where
  \<comment> \<open>a price request with an empty argument object\<close>
  "bare_price_call =
     \<lparr>call_id = ''q0'', call_name = ''getStockPrice'', call_args = Some Map.empty\<rparr>"

definition no_args_price_call :: FunctionCall where
  \<comment> \<open>a price request without an argument object\<close>
  "no_args_price_call = \<lparr>call_id = ''n0'', call_name = ''getStockPrice'', call_args = None\<rparr>"

definition no_args_weather_call :: FunctionCall where
  \<comment> \<open>a request for a tool that is not declared, without an argument object\<close>
  "no_args_weather_call = \<lparr>call_id = ''n1'', call_name = ''getWeather'', call_args = None\<rparr>"

definition weather_call :: FunctionCall where
  \<comment> \<open>a request for a tool that is not declared\<close>
  "weather_call =
     \<lparr>call_id = ''w1'', call_name = ''getWeather'',
      call_args = Some [''city'' \<mapsto> JsString ''Paris'']\<rparr>"

definition idle_state :: turn_state where
  "idle_state =
     \<lparr>fullTextResponse = [], sources = [], draws = 0, history = [UserText ''hello''],
      events = [SendMessageStream (UserText ''hello'')]\<rparr>"

text \<open>The model asks for a price, then answers in text.\<close>

definition price_model :: model where
  "price_model h =
     (if length h = 1
      then ([text_chunk ''Let me check. '', calls_chunk [price_call ''p1'' ''AAPL'']], None)
      else ([text_chunk ''AAPL trades at $510.00.''], None))"

text \<open>The model asks for a chart, then answers in text.\<close>

definition chart_model :: model where
  "chart_model h =
     (if length h = 1 then ([calls_chunk [chart_call ''c1'' ''btc'' ''1W'']], None)
      else ([text_chunk ''Here is the chart.''], None))"

text \<open>The model asks for a tool that is not declared.\<close>

definition weather_model :: model where
  "weather_model h = (if length h = 1 then ([calls_chunk [weather_call]], None) else ([], None))"


text \<open>The model asks for a price and, after the result, for another one.\<close>

definition followup_model :: model where
  "followup_model h =
     (if length h = 1 then ([calls_chunk [price_call ''p1'' ''AAPL'']], None)
      else ([\<lparr>chunk_text = Some ''One more lookup.'', chunk_groundingChunks = None,
               chunk_functionCalls = Some [price_call ''p2'' ''MSFT'']\<rparr>], None))"

text \<open>The model asks for a price without giving an argument object.\<close>

definition no_args_model :: model where
  "no_args_model h =
     (if length h = 1 then ([text_chunk ''Let me check. '', calls_chunk [no_args_price_call]], None)
      else ([text_chunk ''It trades at $510.00.''], None))"

text \<open>The model asks for a chart and, in the same batch, for a price without arguments.\<close>

definition chart_then_no_args_model :: model where
  "chart_then_no_args_model h =
     (if length h = 1
      then ([calls_chunk [chart_call ''c1'' ''btc'' ''1W'', no_args_price_call]], None)
      else ([text_chunk ''Here is the chart.''], None))"

text \<open>The model rejects every request.\<close>

definition rejecting_model :: model where
  "rejecting_model h = ([], Some (ModelError ''API key not valid''))"

section \<open>The chart generator: length of the series, draws, totality\<close>

lemma chart_body_draws: "fst (snd (chart_body rt p i s)) = fst (snd s) + 2"
  by (simp add: chart_body_def Let_def split: prod.splits)

lemma chart_body_length: "length (snd (snd (chart_body rt p i s))) = Suc (length (snd (snd s)))"
  by (simp add: chart_body_def Let_def split: prod.splits)

lemma chart_loop_draws: "fst (snd (chart_loop rt p n s)) = fst (snd s) + 2 * Suc n"
  by (induction n arbitrary: s) (simp_all add: chart_body_draws)

lemma chart_loop_length: "length (snd (snd (chart_loop rt p n s))) = length (snd (snd s)) + Suc n"
  by (induction n arbitrary: s) (simp_all add: chart_body_length)

lemma first_price_Inr: "dat \<noteq> [] \<Longrightarrow> first_price dat = Inr (price (hd dat))"
  by (cases dat) (simp_all add: first_price_def)

lemma generate_chart:
  "\<exists>c. generateMockChartData rt k (JsString sy) p = Inr (c, k + 2 * points_of p + 3) \<and>
       symbol c = toUpperCase sy \<and> period c = p \<and>
       length (data c) = Suc (points_of p) \<and>
       trend c = trend_of (price (hd (data c))) (price (last (data c)))"
proof -
  let ?start = "fl rt (fl rt (math_random rt k * 100) + 50)"
  obtain cp k' dat where loop: "chart_loop rt p (points_of p) (?start, k + 1, []) = (cp, k', dat)"
    by (cases "chart_loop rt p (points_of p) (?start, k + 1, [])") auto
  have len: "length dat = Suc (points_of p)"
    using chart_loop_length [of rt p "points_of p" "(?start, k + 1, [])"] loop by simp
  have k': "k' = k + 2 * points_of p + 3"
    using chart_loop_draws [of rt p "points_of p" "(?start, k + 1, [])"] loop by simp
  from len have ne: "dat \<noteq> []" by auto
  show ?thesis
    using loop len k' ne
    by (simp add: generateMockChartData_def Let_def first_price_Inr last_price_def)
qed

lemma generate_chart_not_a_string:
  assumes "\<And>s. sy \<noteq> JsString s"
  shows "generateMockChartData rt k sy p = Inl (TypeError, k + 2 * points_of p + 3)"
proof -
  let ?start = "fl rt (fl rt (math_random rt k * 100) + 50)"
  obtain cp k' dat where loop: "chart_loop rt p (points_of p) (?start, k + 1, []) = (cp, k', dat)"
    by (cases "chart_loop rt p (points_of p) (?start, k + 1, [])") auto
  have len: "length dat = Suc (points_of p)"
    using chart_loop_length [of rt p "points_of p" "(?start, k + 1, [])"] loop by simp
  have k': "k' = k + 2 * points_of p + 3"
    using chart_loop_draws [of rt p "points_of p" "(?start, k + 1, [])"] loop by simp
  from len have ne: "dat \<noteq> []" by auto
  show ?thesis
    using loop len k' ne assms
    by (cases sy) (auto simp: generateMockChartData_def Let_def first_price_Inr last_price_def)
qed

lemma points_of_cases:
  "points_of p =
     (if p = JsString ''1D'' then 24 else if p = JsString ''1W'' then 7
      else if p = JsString ''1Y'' then 12 else 30)"
  by (simp add: points_of_def)

lemma chart_body_dates:
  "map date (snd (snd (chart_body rt p i s))) = map date (snd (snd s)) @ [point_label p i]"
  by (simp add: chart_body_def Let_def split: prod.splits)

lemma chart_loop_dates:
  "map date (snd (snd (chart_loop rt p n s))) =
     map date (snd (snd s)) @ map (point_label p) (rev [0..<Suc n])"
  by (induction n arbitrary: s) (simp_all add: chart_body_dates)

lemma generate_chart_dates:
  assumes "generateMockChartData rt k sy p = Inr (c, k')"
  shows "map date (data c) = map (point_label p) (rev [0..<Suc (points_of p)])"
proof -
  let ?start = "fl rt (fl rt (math_random rt k * 100) + 50)"
  obtain cp kk dat where loop:
    "chart_loop rt p (points_of p) (?start, k + 1, []) = (cp, kk, dat)"
    by (cases "chart_loop rt p (points_of p) (?start, k + 1, [])") auto
  have d: "map date dat = map (point_label p) (rev [0..<Suc (points_of p)])"
    using chart_loop_dates [of rt p "points_of p" "(?start, k + 1, [])"] loop
    by simp
  from assms loop have "data c = dat"
    by (auto simp: generateMockChartData_def Let_def split: sum.splits js_value.splits)
  with d show ?thesis by simp
qed

section \<open>The tool executor\<close>

lemma registered_iff: "registered n = (n = ''getStockChart'' \<or> n = ''getStockPrice'')"
  by (auto simp: registered_def functionDeclarations_def getStockChartFunction_def
      getStockPriceFunction_def)

lemma summarises_chart_result:
  "summarises \<lparr>resp_id = i, resp_name = ''getStockChart'',
     resp_result = chart_result sy (price (last (data c)))\<rparr> c"
  unfolding summarises_def chart_result_def
  by (simp add: suffix_def)

lemma execute_call_no_args:
  assumes "call_args call = None"
  shows "execute_call rt call t = Inl (TypeError, t)"
  using assms by (simp add: execute_call_def)

lemma execute_call_chart:
  assumes "call_name call = ''getStockChart''" and "call_args call = Some args"
    and "value_or (args ''symbol'') (JsString ''UNKNOWN'') = JsString sy"
  shows "\<exists>c. generateMockChartData rt (draws t) (JsString sy)
             (value_or (args ''period'') (JsString ''1M'')) =
             Inr (c, draws t + 2 * points_of (value_or (args ''period'') (JsString ''1M'')) + 3) \<and>
           data c \<noteq> [] \<and>
           symbol c = toUpperCase sy \<and>
           period c = value_or (args ''period'') (JsString ''1M'') \<and>
           length (data c) = Suc (points_of (value_or (args ''period'') (JsString ''1M''))) \<and>
           execute_call rt call t =
             Inr (t\<lparr>draws := draws t + 2 * points_of (value_or (args ''period'') (JsString ''1M'')) + 3,
                    events := events t @ [OnChart c]\<rparr>,
                  Some \<lparr>resp_id = call_id call, resp_name = ''getStockChart'',
                        resp_result = chart_result sy (price (last (data c)))\<rparr>)"
proof -
  let ?p = "value_or (args ''period'') (JsString ''1M'')"
  obtain c where c: "generateMockChartData rt (draws t) (JsString sy) ?p =
      Inr (c, draws t + 2 * points_of ?p + 3)"
    "symbol c = toUpperCase sy" "period c = ?p"
    "length (data c) = Suc (points_of ?p)"
    using generate_chart [of rt "draws t" sy ?p] by blast
  from c(4) have ne: "data c \<noteq> []" by auto
  have "execute_call rt call t =
             Inr (t\<lparr>draws := draws t + 2 * points_of ?p + 3, events := events t @ [OnChart c]\<rparr>,
                  Some \<lparr>resp_id = call_id call, resp_name = ''getStockChart'',
                        resp_result = chart_result sy (price (last (data c)))\<rparr>)"
    using assms c(1) ne
    by (simp add: execute_call_def Let_def last_price_def template_text_def)
  with c ne show ?thesis by blast
qed

lemma execute_call_chart_not_a_string:
  assumes "call_name call = ''getStockChart''" and "call_args call = Some args"
    and "\<And>s. value_or (args ''symbol'') (JsString ''UNKNOWN'') \<noteq> JsString s"
  shows "execute_call rt call t =
           Inl (TypeError,
                t\<lparr>draws := draws t + 2 * points_of (value_or (args ''period'') (JsString ''1M'')) + 3\<rparr>)"
  using assms generate_chart_not_a_string [of "value_or (args ''symbol'') (JsString ''UNKNOWN'')" rt
      "draws t" "value_or (args ''period'') (JsString ''1M'')"]
  by (simp add: execute_call_def Let_def)

lemma execute_call_price:
  assumes "call_name call = ''getStockPrice''" and "call_args call = Some args"
  shows "execute_call rt call t =
           Inr (t\<lparr>draws := draws t + 1\<rparr>,
                Some \<lparr>resp_id = call_id call, resp_name = ''getStockPrice'',
                      resp_result =
                        price_result (template_text rt (value_or (args ''symbol'') (JsString ''UNKNOWN'')))
                          (toFixed2 (fl rt (fl rt (math_random rt (draws t) * 1000) + 10)))\<rparr>)"
  using assms by (simp add: execute_call_def Let_def)

lemma execute_call_unknown:
  assumes "\<not> registered (call_name call)" and "call_args call = Some args"
  shows "execute_call rt call t = Inr (t, None)"
  using assms by (simp add: execute_call_def Let_def registered_iff)

lemma execute_call_effect:
  "\<exists>chs. events (executor_state (execute_call rt call t)) = events t @ map OnChart chs \<and>
     fullTextResponse (executor_state (execute_call rt call t)) = fullTextResponse t \<and>
     sources (executor_state (execute_call rt call t)) = sources t \<and>
     history (executor_state (execute_call rt call t)) = history t \<and>
     (\<forall>c\<in>set chs. data c \<noteq> []) \<and>
     (case execute_call rt call t of
        Inl x \<Rightarrow> chs = []
      | Inr (t', r) \<Rightarrow>
          map resp_id (case r of None \<Rightarrow> [] | Some fr \<Rightarrow> [fr]) =
            map call_id (filter is_registered_call [call]) \<and>
          map resp_name (case r of None \<Rightarrow> [] | Some fr \<Rightarrow> [fr]) =
            map call_name (filter is_registered_call [call]) \<and>
          (\<forall>c\<in>set chs. \<exists>fr. r = Some fr \<and> summarises fr c))"
proof (cases "call_args call")
  case None
  show ?thesis
    by (rule exI [of _ "[]"]) (simp add: execute_call_no_args [OF None])
next
  case (Some args)
  let ?sy = "value_or (args ''symbol'') (JsString ''UNKNOWN'')"
  let ?p = "value_or (args ''period'') (JsString ''1M'')"
  show ?thesis
  proof (cases "call_name call = ''getStockChart''")
    case True
    show ?thesis
    proof (cases "\<exists>s. ?sy = JsString s")
      case True
      then obtain s where s: "?sy = JsString s" ..
      obtain c where c: "data c \<noteq> []"
        "execute_call rt call t =
           Inr (t\<lparr>draws := draws t + 2 * points_of ?p + 3, events := events t @ [OnChart c]\<rparr>,
                Some \<lparr>resp_id = call_id call, resp_name = ''getStockChart'',
                      resp_result = chart_result s (price (last (data c)))\<rparr>)"
        using execute_call_chart [OF \<open>call_name call = ''getStockChart''\<close> Some s, of rt t] by blast
      show ?thesis
        by (rule exI [of _ "[c]"])
           (simp add: c \<open>call_name call = ''getStockChart''\<close> is_registered_call_def registered_iff
              summarises_chart_result)
    next
      case False
      then have "\<And>s. ?sy \<noteq> JsString s" by blast
      from execute_call_chart_not_a_string [OF \<open>call_name call = ''getStockChart''\<close> Some this, of rt t]
      show ?thesis
        by (intro exI [of _ "[]"]) simp
    qed
  next
    case False
    show ?thesis
    proof (cases "call_name call = ''getStockPrice''")
      case True
      show ?thesis
        by (rule exI [of _ "[]"])
           (simp add: execute_call_price [OF True Some] True is_registered_call_def registered_iff)
    next
      case F2: False
      with False have "\<not> registered (call_name call)" by (simp add: registered_iff)
      then show ?thesis
        by (intro exI [of _ "[]"])
           (simp add: execute_call_unknown [OF _ Some] is_registered_call_def)
    qed
  qed
qed

lemma execute_call_well_formed:
  assumes "well_formed_call call"
  shows "\<exists>t' r. execute_call rt call t = Inr (t', r)"
proof -
  from assms obtain args where a: "call_args call = Some args"
    by (auto simp: well_formed_call_def split: option.splits)
  show ?thesis
  proof (cases "call_name call = ''getStockChart''")
    case True
    with assms a obtain s where "value_or (args ''symbol'') (JsString ''UNKNOWN'') = JsString s"
      by (auto simp: well_formed_call_def split: js_value.splits)
    from execute_call_chart [OF True a this, of rt t] show ?thesis by blast
  next
    case False
    show ?thesis
    proof (cases "call_name call = ''getStockPrice''")
      case True
      from execute_call_price [OF True a, of rt t] show ?thesis by blast
    next
      case F2: False
      with False have "\<not> registered (call_name call)" by (simp add: registered_iff)
      from execute_call_unknown [OF this a, of rt t] show ?thesis by blast
    qed
  qed
qed


lemma execute_calls_effect:
  "\<exists>chs. events (executor_state (execute_calls rt calls t rs)) = events t @ map OnChart chs \<and>
     fullTextResponse (executor_state (execute_calls rt calls t rs)) = fullTextResponse t \<and>
     sources (executor_state (execute_calls rt calls t rs)) = sources t \<and>
     history (executor_state (execute_calls rt calls t rs)) = history t \<and>
     (\<forall>c\<in>set chs. data c \<noteq> []) \<and>
     (case execute_calls rt calls t rs of
        Inl x \<Rightarrow> True
      | Inr (t', rs') \<Rightarrow>
          (\<exists>new. rs' = rs @ new \<and>
             map resp_id new = map call_id (filter is_registered_call calls) \<and>
             map resp_name new = map call_name (filter is_registered_call calls) \<and>
             (\<forall>c\<in>set chs. \<exists>fr\<in>set new. summarises fr c)))"
proof (induction calls arbitrary: t rs)
  case Nil
  show ?case
    by (rule exI [of _ "[]"]) simp
next
  case (Cons call calls)
  obtain chs1 where one:
    "events (executor_state (execute_call rt call t)) = events t @ map OnChart chs1"
    "fullTextResponse (executor_state (execute_call rt call t)) = fullTextResponse t"
    "sources (executor_state (execute_call rt call t)) = sources t"
    "history (executor_state (execute_call rt call t)) = history t"
    "\<forall>c\<in>set chs1. data c \<noteq> []"
    "case execute_call rt call t of
        Inl x \<Rightarrow> chs1 = []
      | Inr (t', r) \<Rightarrow>
          map resp_id (case r of None \<Rightarrow> [] | Some fr \<Rightarrow> [fr]) =
            map call_id (filter is_registered_call [call]) \<and>
          map resp_name (case r of None \<Rightarrow> [] | Some fr \<Rightarrow> [fr]) =
            map call_name (filter is_registered_call [call]) \<and>
          (\<forall>c\<in>set chs1. \<exists>fr. r = Some fr \<and> summarises fr c)"
    using execute_call_effect [of rt call t] by (elim exE conjE) (rule that, assumption+)
  show ?case
  proof (cases "execute_call rt call t")
    case (Inl x)
    obtain e t0 where x: "x = (e, t0)" by (cases x)
    from Inl x have same: "execute_calls rt (call # calls) t rs = Inl (e, t0)" by simp
    show ?thesis
      apply (rule exI [of _ chs1])
      using one(1-5) Inl x by (simp add: same del: execute_calls.simps)
  next
    case (Inr y)
    obtain t1 r where y: "y = (t1, r)" by (cases y)
    let ?r = "case r of None \<Rightarrow> [] | Some fr \<Rightarrow> [fr]"
    from Inr y have step: "execute_calls rt (call # calls) t rs = execute_calls rt calls t1 (rs @ ?r)"
      by simp
    from Inr y one have t1: "events t1 = events t @ map OnChart chs1"
      "fullTextResponse t1 = fullTextResponse t" "sources t1 = sources t" "history t1 = history t"
      and r1: "map resp_id ?r = map call_id (filter is_registered_call [call])"
        "map resp_name ?r = map call_name (filter is_registered_call [call])"
        "\<forall>c\<in>set chs1. \<exists>fr. r = Some fr \<and> summarises fr c"
      by simp_all
    obtain chs2 where two:
      "events (executor_state (execute_calls rt calls t1 (rs @ ?r))) = events t1 @ map OnChart chs2"
      "fullTextResponse (executor_state (execute_calls rt calls t1 (rs @ ?r))) = fullTextResponse t1"
      "sources (executor_state (execute_calls rt calls t1 (rs @ ?r))) = sources t1"
      "history (executor_state (execute_calls rt calls t1 (rs @ ?r))) = history t1"
      "\<forall>c\<in>set chs2. data c \<noteq> []"
      "case execute_calls rt calls t1 (rs @ ?r) of
        Inl x \<Rightarrow> True
      | Inr (t', rs') \<Rightarrow>
          (\<exists>new. rs' = (rs @ ?r) @ new \<and>
             map resp_id new = map call_id (filter is_registered_call calls) \<and>
             map resp_name new = map call_name (filter is_registered_call calls) \<and>
             (\<forall>c\<in>set chs2. \<exists>fr\<in>set new. summarises fr c))"
      using Cons.IH [of t1 "rs @ ?r"] by (elim exE conjE) (rule that, assumption+)
    have res: "case execute_calls rt calls t1 (rs @ ?r) of
        Inl x \<Rightarrow> True
      | Inr (t', rs') \<Rightarrow>
          (\<exists>new. rs' = rs @ new \<and>
             map resp_id new = map call_id (filter is_registered_call (call # calls)) \<and>
             map resp_name new = map call_name (filter is_registered_call (call # calls)) \<and>
             (\<forall>c\<in>set (chs1 @ chs2). \<exists>fr\<in>set new. summarises fr c))"
    proof (cases "execute_calls rt calls t1 (rs @ ?r)")
      case (Inl x)
      then show ?thesis by simp
    next
      case (Inr z)
      obtain t' rs' where z: "z = (t', rs')" by (cases z)
      from two(6) Inr z obtain new2 where n: "rs' = (rs @ ?r) @ new2"
        "map resp_id new2 = map call_id (filter is_registered_call calls)"
        "map resp_name new2 = map call_name (filter is_registered_call calls)"
        "\<forall>c\<in>set chs2. \<exists>fr\<in>set new2. summarises fr c"
        by auto
      have ids: "map resp_id (?r @ new2) = map call_id (filter is_registered_call (call # calls))"
        using r1(1) n(2) by (simp split: if_splits)
      have names: "map resp_name (?r @ new2) = map call_name (filter is_registered_call (call # calls))"
        using r1(2) n(3) by (simp split: if_splits)
      have charts: "\<forall>c\<in>set (chs1 @ chs2). \<exists>fr\<in>set (?r @ new2). summarises fr c"
        using r1(3) n(4) by auto
      have "rs' = rs @ (?r @ new2)" using n(1) by simp
      with ids names charts have "\<exists>new. rs' = rs @ new \<and>
             map resp_id new = map call_id (filter is_registered_call (call # calls)) \<and>
             map resp_name new = map call_name (filter is_registered_call (call # calls)) \<and>
             (\<forall>c\<in>set (chs1 @ chs2). \<exists>fr\<in>set new. summarises fr c)"
        by blast
      with Inr z show ?thesis by simp
    qed
    have nonempty: "\<forall>c\<in>set (chs1 @ chs2). data c \<noteq> []"
      using one(5) two(5) by auto
    show ?thesis
      apply (rule exI [of _ "chs1 @ chs2"])
      using t1 two(1-4) nonempty res by (simp add: step del: execute_calls.simps set_append)
  qed
qed



section \<open>Traces: delivered text and charts\<close>

lemma delivered_append: "delivered (xs @ ys) = delivered xs @ delivered ys"
  by (induction xs rule: delivered.induct) simp_all

lemma delivered_OnChart: "delivered (map OnChart cs) = []"
  by (induction cs) simp_all

lemma delivered_OnChunk: "delivered (map OnChunk ss) = ss"
  by (induction ss) simp_all

lemma handle_text_eq:
  "handle_text c t =
     t\<lparr>fullTextResponse := fullTextResponse t @ concat (texts_of [c]),
        events := events t @ map OnChunk (texts_of [c])\<rparr>"
  by (simp add: handle_text_def texts_of_def split: option.splits)

lemma texts_of_Cons: "texts_of (c # cs) = texts_of [c] @ texts_of cs"
  by (simp add: texts_of_def)

lemma tool_stream_loop_eq:
  "tool_stream_loop cs t =
     t\<lparr>fullTextResponse := fullTextResponse t @ concat (texts_of cs),
        events := events t @ map OnChunk (texts_of cs)\<rparr>"
proof (induction cs arbitrary: t)
  case Nil
  show ?case by (simp add: texts_of_def)
next
  case (Cons c cs)
  show ?case
    by (simp add: Cons.IH handle_text_eq texts_of_Cons [of c cs])
qed

lemma submit_responses_state:
  "state_reached (submit_responses m rs t) =
     t\<lparr>fullTextResponse :=
          fullTextResponse t @ concat (texts_of (fst (m (history t @ [ToolResults rs])))),
        history := history t @ [ToolResults rs],
        events := events t @ SendMessageStream (ToolResults rs) #
                  map OnChunk (texts_of (fst (m (history t @ [ToolResults rs]))))\<rparr>"
  by (simp add: submit_responses_def Let_def tool_stream_loop_eq split: prod.splits option.splits)

lemma charts_settled_no_chart:
  assumes "charts_settled tr" and "\<forall>c. OnChart c \<notin> set es"
  shows "charts_settled (tr @ es)"
  unfolding charts_settled_def
proof (intro allI impI)
  fix before c after
  assume eq: "tr @ es = before @ OnChart c # after"
  then obtain us where "tr = before @ us \<and> us @ es = OnChart c # after \<or>
      tr @ us = before \<and> es = us @ OnChart c # after"
    by (auto simp: append_eq_append_conv2)
  then show "data c \<noteq> [] \<and> (\<exists>charts rs rest.
           after = map OnChart charts @ SendMessageStream (ToolResults rs) # rest \<and>
           (\<exists>fr\<in>set rs. summarises fr c))"
  proof
    assume a: "tr = before @ us \<and> us @ es = OnChart c # after"
    show ?thesis
    proof (cases us)
      case Nil
      with a assms(2) show ?thesis by auto
    next
      case (Cons u us')
      with a have tr: "tr = before @ OnChart c # us'" and after: "after = us' @ es" by auto
      from assms(1) tr obtain charts rs rest where "data c \<noteq> []"
        "us' = map OnChart charts @ SendMessageStream (ToolResults rs) # rest"
        "\<exists>fr\<in>set rs. summarises fr c"
        unfolding charts_settled_def by blast
      then show ?thesis using after by auto
    qed
  next
    assume "tr @ us = before \<and> es = us @ OnChart c # after"
    with assms(2) show ?thesis by auto
  qed
qed

lemma charts_then_send_split:
  "map OnChart chs @ [SendMessageStream msg] = us @ OnChart c # after \<Longrightarrow>
     \<exists>as bs. chs = as @ c # bs \<and> after = map OnChart bs @ [SendMessageStream msg]"
proof (induction chs arbitrary: us)
  case Nil
  then show ?case by (cases us) auto
next
  case (Cons x xs)
  show ?case
  proof (cases us)
    case Nil
    with Cons.prems have "x # xs = [] @ c # xs \<and> after = map OnChart xs @ [SendMessageStream msg]"
      by simp
    then show ?thesis by blast
  next
    case (Cons u us')
    with Cons.prems have "map OnChart xs @ [SendMessageStream msg] = us' @ OnChart c # after"
      by simp
    from Cons.IH [OF this] obtain as bs where "xs = as @ c # bs"
      "after = map OnChart bs @ [SendMessageStream msg]" by blast
    then have "x # xs = (x # as) @ c # bs \<and> after = map OnChart bs @ [SendMessageStream msg]"
      by simp
    then show ?thesis by blast
  qed
qed

lemma charts_settled_batch:
  assumes "charts_settled tr"
    and "\<forall>c\<in>set chs. data c \<noteq> [] \<and> (\<exists>fr\<in>set rs. summarises fr c)"
  shows "charts_settled (tr @ map OnChart chs @ [SendMessageStream (ToolResults rs)])"
  unfolding charts_settled_def
proof (intro allI impI)
  fix before c after
  let ?seg = "map OnChart chs @ [SendMessageStream (ToolResults rs)]"
  assume eq: "tr @ ?seg = before @ OnChart c # after"
  then obtain us where "tr = before @ us \<and> us @ ?seg = OnChart c # after \<or>
      tr @ us = before \<and> ?seg = us @ OnChart c # after"
    by (auto simp: append_eq_append_conv2)
  then show "data c \<noteq> [] \<and> (\<exists>charts rs rest.
           after = map OnChart charts @ SendMessageStream (ToolResults rs) # rest \<and>
           (\<exists>fr\<in>set rs. summarises fr c))"
  proof
    assume a: "tr = before @ us \<and> us @ ?seg = OnChart c # after"
    show ?thesis
    proof (cases us)
      case Nil
      with a have "?seg = [] @ OnChart c # after" by simp
      from charts_then_send_split [OF this] obtain as bs where
        "chs = as @ c # bs" "after = map OnChart bs @ [SendMessageStream (ToolResults rs)]"
        by blast
      with assms(2) show ?thesis by auto
    next
      case (Cons u us')
      with a have tr: "tr = before @ OnChart c # us'" and after: "after = us' @ ?seg" by auto
      from assms(1) tr obtain charts rs' rest where "data c \<noteq> []"
        "us' = map OnChart charts @ SendMessageStream (ToolResults rs') # rest"
        "\<exists>fr\<in>set rs'. summarises fr c"
        unfolding charts_settled_def by blast
      then show ?thesis using after by auto
    qed
  next
    assume b: "tr @ us = before \<and> ?seg = us @ OnChart c # after"
    then have "?seg = us @ OnChart c # after" by simp
    from charts_then_send_split [OF this] obtain as bs where
      "chs = as @ c # bs" "after = map OnChart bs @ [SendMessageStream (ToolResults rs)]"
      by blast
    with assms(2) show ?thesis by auto
  qed
qed

lemma charts_settled_pending: "charts_settled tr \<Longrightarrow> charts_pending tr"
  unfolding charts_settled_def charts_pending_def by blast

lemma charts_split:
  "map OnChart chs = us @ OnChart c # after \<Longrightarrow>
     \<exists>as bs. chs = as @ c # bs \<and> after = map OnChart bs"
  by (auto simp: map_eq_append_conv map_eq_Cons_conv)

lemma charts_pending_charts:
  assumes "charts_settled tr" and "\<forall>c\<in>set chs. data c \<noteq> []"
  shows "charts_pending (tr @ map OnChart chs)"
  unfolding charts_pending_def
proof (intro allI impI)
  fix before c after
  assume eq: "tr @ map OnChart chs = before @ OnChart c # after"
  then obtain us where "tr = before @ us \<and> us @ map OnChart chs = OnChart c # after \<or>
      tr @ us = before \<and> map OnChart chs = us @ OnChart c # after"
    by (auto simp: append_eq_append_conv2)
  then show "data c \<noteq> [] \<and>
        ((\<exists>charts rs rest.
            after = map OnChart charts @ SendMessageStream (ToolResults rs) # rest \<and>
            (\<exists>fr\<in>set rs. summarises fr c)) \<or>
         (\<exists>charts. after = map OnChart charts))"
  proof
    assume a: "tr = before @ us \<and> us @ map OnChart chs = OnChart c # after"
    show ?thesis
    proof (cases us)
      case Nil
      with a have "map OnChart chs = [] @ OnChart c # after" by simp
      from charts_split [OF this] obtain as bs where
        "chs = as @ c # bs" "after = map OnChart bs" by blast
      with assms(2) show ?thesis by auto
    next
      case (Cons u us')
      with a have tr: "tr = before @ OnChart c # us'" and after: "after = us' @ map OnChart chs"
        by auto
      from assms(1) tr obtain charts rs rest where "data c \<noteq> []"
        "us' = map OnChart charts @ SendMessageStream (ToolResults rs) # rest"
        "\<exists>fr\<in>set rs. summarises fr c"
        unfolding charts_settled_def by blast
      then show ?thesis using after by auto
    qed
  next
    assume b: "tr @ us = before \<and> map OnChart chs = us @ OnChart c # after"
    then have "map OnChart chs = us @ OnChart c # after" by simp
    from charts_split [OF this] obtain as bs where
      "chs = as @ c # bs" "after = map OnChart bs" by blast
    with assms(2) show ?thesis by auto
  qed
qed

lemma charts_pending_console:
  assumes "charts_pending tr" and "tr @ [ConsoleError x] = before @ OnChart c # after"
  shows "data c \<noteq> [] \<and>
        ((\<exists>charts rs rest.
            after = map OnChart charts @ SendMessageStream (ToolResults rs) # rest \<and>
            (\<exists>fr\<in>set rs. summarises fr c)) \<or>
         (\<exists>charts. after = map OnChart charts @ [ConsoleError x]))"
proof -
  from assms(2) obtain us where "tr = before @ us \<and> us @ [ConsoleError x] = OnChart c # after \<or>
      tr @ us = before \<and> [ConsoleError x] = us @ OnChart c # after"
    by (auto simp: append_eq_append_conv2)
  then show ?thesis
  proof
    assume a: "tr = before @ us \<and> us @ [ConsoleError x] = OnChart c # after"
    show ?thesis
    proof (cases us)
      case Nil
      with a show ?thesis by simp
    next
      case (Cons u us')
      with a have tr: "tr = before @ OnChart c # us'" and after: "after = us' @ [ConsoleError x]"
        by auto
      from assms(1) tr have d: "data c \<noteq> []"
        and alt: "(\<exists>charts rs rest.
            us' = map OnChart charts @ SendMessageStream (ToolResults rs) # rest \<and>
            (\<exists>fr\<in>set rs. summarises fr c)) \<or>
         (\<exists>charts. us' = map OnChart charts)"
        unfolding charts_pending_def by blast+
      from alt show ?thesis
      proof
        assume "\<exists>charts rs rest.
            us' = map OnChart charts @ SendMessageStream (ToolResults rs) # rest \<and>
            (\<exists>fr\<in>set rs. summarises fr c)"
        then obtain charts rs rest where
          "us' = map OnChart charts @ SendMessageStream (ToolResults rs) # rest"
          "\<exists>fr\<in>set rs. summarises fr c" by blast
        with after have "after = map OnChart charts @ SendMessageStream (ToolResults rs) #
            (rest @ [ConsoleError x]) \<and> (\<exists>fr\<in>set rs. summarises fr c)"
          by simp
        with d show ?thesis by blast
      next
        assume "\<exists>charts. us' = map OnChart charts"
        with after d show ?thesis by auto
      qed
    qed
  next
    assume "tr @ us = before \<and> [ConsoleError x] = us @ OnChart c # after"
    then show ?thesis by (cases us) auto
  qed
qed


section \<open>The orchestrator: what a fragment, a stream and a turn add to the trace\<close>

lemma handle_function_calls_batch:
  assumes "chunk_functionCalls c = Some calls"
  shows "handle_function_calls rt m c t =
     (case execute_calls rt calls t [] of
        Inl x \<Rightarrow> Inl x
      | Inr (t', rs) \<Rightarrow> if rs = [] then Inr t' else submit_responses m rs t')"
  using assms by (cases calls) (simp_all add: handle_function_calls_def split: sum.splits)

lemma handle_function_calls_effect:
  "\<exists>seg. events (state_reached (handle_function_calls rt m c t)) = events t @ seg \<and>
     fullTextResponse (state_reached (handle_function_calls rt m c t)) =
       fullTextResponse t @ concat (delivered seg) \<and>
     (charts_settled (events t) \<longrightarrow> outcome_settled (handle_function_calls rt m c t))"
proof (cases "chunk_functionCalls c")
  case None
  then show ?thesis
    by (intro exI [of _ "[]"]) (simp add: handle_function_calls_def)
next
  case (Some calls)
  note h = handle_function_calls_batch [OF Some, of rt m t]
  obtain chs where b:
    "events (executor_state (execute_calls rt calls t [])) = events t @ map OnChart chs"
    "fullTextResponse (executor_state (execute_calls rt calls t [])) = fullTextResponse t"
    "\<forall>c\<in>set chs. data c \<noteq> []"
    "case execute_calls rt calls t [] of
        Inl x \<Rightarrow> True
      | Inr (t', rs') \<Rightarrow>
          (\<exists>new. rs' = [] @ new \<and>
             map resp_id new = map call_id (filter is_registered_call calls) \<and>
             map resp_name new = map call_name (filter is_registered_call calls) \<and>
             (\<forall>c\<in>set chs. \<exists>fr\<in>set new. summarises fr c))"
    using execute_calls_effect [of rt calls t "[]"] by (elim exE conjE) (rule that, assumption+)
  show ?thesis
  proof (cases "execute_calls rt calls t []")
    case (Inl x)
    obtain e t' where x: "x = (e, t')" by (cases x)
    from Inl x h have r: "handle_function_calls rt m c t = Inl (e, t')" by simp
    from Inl x b have ev: "events t' = events t @ map OnChart chs"
      and tx: "fullTextResponse t' = fullTextResponse t" by simp_all
    have st: "charts_settled (events t) \<longrightarrow> charts_pending (events t @ map OnChart chs)"
    proof
      assume "charts_settled (events t)"
      from charts_pending_charts [OF this b(3)]
      show "charts_pending (events t @ map OnChart chs)" .
    qed
    show ?thesis
      by (rule exI [of _ "map OnChart chs"]) (simp add: r ev tx st delivered_OnChart)
  next
    case (Inr y)
    obtain t' rs where y: "y = (t', rs)" by (cases y)
    from Inr y h have r: "handle_function_calls rt m c t =
        (if rs = [] then Inr t' else submit_responses m rs t')" by simp
    from Inr y b have ev: "events t' = events t @ map OnChart chs"
      and tx: "fullTextResponse t' = fullTextResponse t"
      and sm: "\<forall>c\<in>set chs. \<exists>fr\<in>set rs. summarises fr c" by simp_all
    from sm b(3) have both: "\<forall>c\<in>set chs. data c \<noteq> [] \<and> (\<exists>fr\<in>set rs. summarises fr c)"
      by blast
    show ?thesis
    proof (cases "rs = []")
      case True
      with sm have "chs = []" by (cases chs) auto
      with True r ev tx show ?thesis by (intro exI [of _ "[]"]) simp
    next
      case False
      let ?texts = "texts_of (fst (m (history t' @ [ToolResults rs])))"
      let ?seg = "(map OnChart chs @ [SendMessageStream (ToolResults rs)]) @ map OnChunk ?texts"
      have ev2: "events (state_reached (handle_function_calls rt m c t)) = events t @ ?seg"
        using False r ev by (simp add: submit_responses_state)
      have tx2: "fullTextResponse (state_reached (handle_function_calls rt m c t)) =
          fullTextResponse t @ concat (delivered ?seg)"
        using False r tx
        by (simp add: submit_responses_state delivered_append delivered_OnChart delivered_OnChunk)
      have st: "charts_settled (events t) \<longrightarrow> outcome_settled (handle_function_calls rt m c t)"
      proof
        assume "charts_settled (events t)"
        from charts_settled_batch [OF this both]
        have "charts_settled (events t @ map OnChart chs @ [SendMessageStream (ToolResults rs)])" .
        from charts_settled_no_chart [OF this, of "map OnChunk ?texts"]
        have s: "charts_settled (events (state_reached (handle_function_calls rt m c t)))"
          using ev2 by auto
        show "outcome_settled (handle_function_calls rt m c t)"
        proof (cases "handle_function_calls rt m c t")
          case (Inl z)
          obtain e tz where "z = (e, tz)" by (cases z)
          with Inl s show ?thesis by (simp add: charts_settled_pending)
        next
          case (Inr tz)
          with s show ?thesis by simp
        qed
      qed
      from ev2 tx2 st show ?thesis by blast
    qed
  qed
qed

lemma process_chunk_effect:
  "\<exists>seg. events (state_reached (process_chunk rt m c t)) = events t @ seg \<and>
     fullTextResponse (state_reached (process_chunk rt m c t)) =
       fullTextResponse t @ concat (delivered seg) \<and>
     (charts_settled (events t) \<longrightarrow> outcome_settled (process_chunk rt m c t))"
proof -
  let ?t1 = "handle_grounding c (handle_text c t)"
  have ev1: "events ?t1 = events t @ map OnChunk (texts_of [c])"
    and tx1: "fullTextResponse ?t1 = fullTextResponse t @ concat (texts_of [c])"
    by (simp_all add: handle_grounding_def handle_text_eq split: option.splits)
  obtain seg where s: "events (state_reached (handle_function_calls rt m c ?t1)) = events ?t1 @ seg"
    "fullTextResponse (state_reached (handle_function_calls rt m c ?t1)) =
       fullTextResponse ?t1 @ concat (delivered seg)"
    "charts_settled (events ?t1) \<longrightarrow> outcome_settled (handle_function_calls rt m c ?t1)"
    using handle_function_calls_effect [of rt m c ?t1] by (elim exE conjE) (rule that, assumption+)
  let ?seg = "map OnChunk (texts_of [c]) @ seg"
  have ev: "events (state_reached (process_chunk rt m c t)) = events t @ ?seg"
    using s(1) ev1 by (simp add: process_chunk_def)
  have tx: "fullTextResponse (state_reached (process_chunk rt m c t)) =
      fullTextResponse t @ concat (delivered ?seg)"
    using s(2) tx1 by (simp add: process_chunk_def delivered_append delivered_OnChunk)
  have st: "charts_settled (events t) \<longrightarrow> outcome_settled (process_chunk rt m c t)"
  proof
    assume "charts_settled (events t)"
    from charts_settled_no_chart [OF this, of "map OnChunk (texts_of [c])"]
    have "charts_settled (events ?t1)" using ev1 by auto
    with s(3) show "outcome_settled (process_chunk rt m c t)" by (simp add: process_chunk_def)
  qed
  from ev tx st show ?thesis by blast
qed

lemma stream_loop_effect:
  "\<exists>seg. events (state_reached (stream_loop rt m cs t)) = events t @ seg \<and>
     fullTextResponse (state_reached (stream_loop rt m cs t)) =
       fullTextResponse t @ concat (delivered seg) \<and>
     (charts_settled (events t) \<longrightarrow> outcome_settled (stream_loop rt m cs t))"
proof (induction cs arbitrary: t)
  case Nil
  show ?case by (intro exI [of _ "[]"]) simp
next
  case (Cons c cs)
  obtain seg1 where s1: "events (state_reached (process_chunk rt m c t)) = events t @ seg1"
    "fullTextResponse (state_reached (process_chunk rt m c t)) =
       fullTextResponse t @ concat (delivered seg1)"
    "charts_settled (events t) \<longrightarrow> outcome_settled (process_chunk rt m c t)"
    using process_chunk_effect [of rt m c t] by (elim exE conjE) (rule that, assumption+)
  show ?case
  proof (cases "process_chunk rt m c t")
    case (Inl x)
    then have "stream_loop rt m (c # cs) t = process_chunk rt m c t"
      by simp
    with s1 show ?thesis by metis
  next
    case (Inr t1)
    obtain seg2 where s2: "events (state_reached (stream_loop rt m cs t1)) = events t1 @ seg2"
      "fullTextResponse (state_reached (stream_loop rt m cs t1)) =
         fullTextResponse t1 @ concat (delivered seg2)"
      "charts_settled (events t1) \<longrightarrow> outcome_settled (stream_loop rt m cs t1)"
      using Cons.IH [of t1] by (elim exE conjE) (rule that, assumption+)
    from Inr have r: "stream_loop rt m (c # cs) t = stream_loop rt m cs t1"
      and t1: "state_reached (process_chunk rt m c t) = t1" by simp_all
    have ev: "events (state_reached (stream_loop rt m (c # cs) t)) = events t @ (seg1 @ seg2)"
      using r t1 s1(1) s2(1) by simp
    have tx: "fullTextResponse (state_reached (stream_loop rt m (c # cs) t)) =
        fullTextResponse t @ concat (delivered (seg1 @ seg2))"
      using r t1 s1(2) s2(2) by (simp add: delivered_append)
    have st: "charts_settled (events t) \<longrightarrow> outcome_settled (stream_loop rt m (c # cs) t)"
      using Inr r s1(3) s2(3) by simp
    from ev tx st show ?thesis by blast
  qed
qed

lemma charts_settled_initial: "charts_settled [SendMessageStream (UserText msg)]"
  unfolding charts_settled_def
proof (intro allI impI)
  fix before c after
  assume "[SendMessageStream (UserText msg)] = before @ OnChart c # after"
  then have False by (cases before) auto
  then show "data c \<noteq> [] \<and> (\<exists>charts rs rest.
           after = map OnChart charts @ SendMessageStream (ToolResults rs) # rest \<and>
           (\<exists>fr\<in>set rs. summarises fr c))" ..
qed

lemma stream_loop_invariants:
  assumes "charts_settled (events t)" and "fullTextResponse t = concat (delivered (events t))"
  shows "outcome_settled (stream_loop rt m cs t) \<and>
         fullTextResponse (state_reached (stream_loop rt m cs t)) =
           concat (delivered (events (state_reached (stream_loop rt m cs t))))"
  using stream_loop_effect [of rt m cs t] assms by (auto simp: delivered_append)

lemma sendMessage_effect:
  "\<exists>t::turn_state.
     fullTextResponse t = concat (delivered (events t)) \<and>
     (trace (sendMessage rt m k svc msg) = events t \<and>
      charts_settled (events t) \<and>
      returned (sendMessage rt m k svc msg) =
        Inr \<lparr>result_text = fullTextResponse t, result_sources = sources t\<rparr> \<or>
      trace (sendMessage rt m k svc msg) = events t @ [ConsoleError ''Gemini interaction error:''] \<and>
      charts_pending (events t) \<and>
      (\<exists>e. returned (sendMessage rt m k svc msg) = Inl e))"
proof -
  let ?svc = "if chatSession svc = None then initializeChat svc else svc"
  let ?h = "(case chatSession ?svc of None \<Rightarrow> [] | Some ch \<Rightarrow> chat_history ch) @ [UserText msg]"
  let ?init = "\<lparr>fullTextResponse = [], sources = [], draws = k, history = ?h,
              events = [SendMessageStream (UserText msg)]\<rparr>"
  define res where "res = stream_loop rt m (fst (m ?h)) ?init"
  define tf where "tf = state_reached res"
  have inv: "outcome_settled res \<and> fullTextResponse tf = concat (delivered (events tf))"
    unfolding tf_def res_def
    by (rule stream_loop_invariants) (simp_all add: charts_settled_initial)
  have out: "trace (sendMessage rt m k svc msg) = events tf \<and>
      charts_settled (events tf) \<and>
      returned (sendMessage rt m k svc msg) =
        Inr \<lparr>result_text = fullTextResponse tf, result_sources = sources tf\<rparr> \<or>
      trace (sendMessage rt m k svc msg) = events tf @ [ConsoleError ''Gemini interaction error:''] \<and>
      charts_pending (events tf) \<and>
      (\<exists>e. returned (sendMessage rt m k svc msg) = Inl e)"
  proof (cases res)
    case (Inl x)
    obtain e t' where x: "x = (e, t')" by (cases x)
    from Inl x inv have "charts_pending (events t')" and "tf = t'"
      by (simp_all add: tf_def)
    moreover from Inl x have "trace (sendMessage rt m k svc msg) =
          events t' @ [ConsoleError ''Gemini interaction error:''] \<and>
        returned (sendMessage rt m k svc msg) = Inl e"
      unfolding res_def
      by (cases "m ?h") (simp add: sendMessage_def Let_def fail_turn_def)
    ultimately show ?thesis by blast
  next
    case (Inr t')
    from Inr inv have s: "charts_settled (events t')" and "tf = t'"
      by (simp_all add: tf_def)
    moreover from Inr have "trace (sendMessage rt m k svc msg) = events t' \<and>
        returned (sendMessage rt m k svc msg) =
          Inr \<lparr>result_text = fullTextResponse t', result_sources = sources t'\<rparr> \<or>
        trace (sendMessage rt m k svc msg) =
          events t' @ [ConsoleError ''Gemini interaction error:''] \<and>
        (\<exists>e. returned (sendMessage rt m k svc msg) = Inl e)"
      unfolding res_def
      by (cases "m ?h"; cases "snd (m ?h)") (auto simp: sendMessage_def Let_def fail_turn_def)
    ultimately show ?thesis using charts_settled_pending [OF s] by blast
  qed
  show ?thesis
    by (rule exI [of _ tf]) (use out inv in blast)
qed


section \<open>Sample turns\<close>

lemmas turn_defs =
  sendMessage_def started_service_def initializeChat_def GeminiService_constructor_def
  or_default_def truthy_def value_or_def template_text_def
  text_chunk_def calls_chunk_def price_call_def weather_call_def
  process_chunk_def handle_text_def handle_grounding_def handle_function_calls_def
  execute_call_def submit_responses_def store_history_def fail_turn_def half_def
  toFixed2_def hundredths_def digit_char_def price_result_def Let_def

lemma price_turn:
  "sendMessage half price_model 0 started_service ''Price of AAPL?'' =
     \<lparr>service_after =
        \<lparr>apiKey = ''k3y'',
         chatSession =
           Some \<lparr>chat_model = ''gemini-2.5-flash'', chat_tools = functionDeclarations,
                 chat_history =
                   [UserText ''Price of AAPL?'',
                    ToolResults [\<lparr>resp_id = ''p1'', resp_name = ''getStockPrice'',
                       resp_result = ''The current price of AAPL is $510.00.''\<rparr>]]\<rparr>\<rparr>,
      draws_after = 1,
      trace =
        [SendMessageStream (UserText ''Price of AAPL?''),
         OnChunk ''Let me check. '',
         SendMessageStream
           (ToolResults [\<lparr>resp_id = ''p1'', resp_name = ''getStockPrice'',
              resp_result = ''The current price of AAPL is $510.00.''\<rparr>]),
         OnChunk ''AAPL trades at $510.00.''],
      returned = Inr \<lparr>result_text = ''Let me check. AAPL trades at $510.00.'',
                      result_sources = []\<rparr>\<rparr>"
  by (simp add: turn_defs price_model_def)

lemma weather_turn:
  "sendMessage half weather_model 0 started_service ''Weather in Paris?'' =
     \<lparr>service_after =
        \<lparr>apiKey = ''k3y'',
         chatSession =
           Some \<lparr>chat_model = ''gemini-2.5-flash'', chat_tools = functionDeclarations,
                 chat_history = [UserText ''Weather in Paris?'']\<rparr>\<rparr>,
      draws_after = 0,
      trace = [SendMessageStream (UserText ''Weather in Paris?'')],
      returned = Inr \<lparr>result_text = [], result_sources = []\<rparr>\<rparr>"
  by (simp add: turn_defs weather_model_def)


lemma followup_turn:
  "sendMessage half followup_model 0 started_service ''Prices?'' =
     \<lparr>service_after =
        \<lparr>apiKey = ''k3y'',
         chatSession =
           Some \<lparr>chat_model = ''gemini-2.5-flash'', chat_tools = functionDeclarations,
                 chat_history =
                   [UserText ''Prices?'',
                    ToolResults [\<lparr>resp_id = ''p1'', resp_name = ''getStockPrice'',
                       resp_result = ''The current price of AAPL is $510.00.''\<rparr>]]\<rparr>\<rparr>,
      draws_after = 1,
      trace =
        [SendMessageStream (UserText ''Prices?''),
         SendMessageStream
           (ToolResults [\<lparr>resp_id = ''p1'', resp_name = ''getStockPrice'',
              resp_result = ''The current price of AAPL is $510.00.''\<rparr>]),
         OnChunk ''One more lookup.''],
      returned = Inr \<lparr>result_text = ''One more lookup.'', result_sources = []\<rparr>\<rparr>"
  by (simp add: turn_defs followup_model_def)

lemma no_args_turn:
  "sendMessage half no_args_model 0 started_service ''Price?'' =
     \<lparr>service_after =
        \<lparr>apiKey = ''k3y'',
         chatSession =
           Some \<lparr>chat_model = ''gemini-2.5-flash'', chat_tools = functionDeclarations,
                 chat_history = [UserText ''Price?'']\<rparr>\<rparr>,
      draws_after = 0,
      trace =
        [SendMessageStream (UserText ''Price?''), OnChunk ''Let me check. '',
         ConsoleError ''Gemini interaction error:''],
      returned = Inl TypeError\<rparr>"
  by (simp add: turn_defs no_args_model_def no_args_price_call_def)

lemma chart_call_facts:
  "call_name (chart_call i sy p) = ''getStockChart''"
  "call_id (chart_call i sy p) = i"
  "call_args (chart_call i sy p) = Some [''symbol'' \<mapsto> JsString sy, ''period'' \<mapsto> JsString p]"
  by (simp_all add: chart_call_def)

lemma chart_call_executes:
  assumes "sy \<noteq> []" and "p \<noteq> []"
  shows "\<exists>c k'. execute_call rt (chart_call i sy p) t =
      Inr (t\<lparr>draws := k', events := events t @ [OnChart c]\<rparr>,
           Some \<lparr>resp_id = i, resp_name = ''getStockChart'',
                 resp_result = chart_result sy (price (last (data c)))\<rparr>) \<and>
      data c \<noteq> [] \<and> period c = JsString p"
proof -
  let ?args = "[''symbol'' \<mapsto> JsString sy, ''period'' \<mapsto> JsString p]"
  have s: "value_or (?args ''symbol'') (JsString ''UNKNOWN'') = JsString sy"
    and q: "value_or (?args ''period'') (JsString ''1M'') = JsString p"
    using assms by (simp_all add: value_or_def)
  from execute_call_chart [OF chart_call_facts(1) chart_call_facts(3) s, where rt = rt and t = t]
  show ?thesis
    unfolding q chart_call_facts(2) by blast
qed

lemma chart_turn:
  "\<exists>c. trace (sendMessage half chart_model 0 started_service ''Show BTC'') =
         [SendMessageStream (UserText ''Show BTC'')] @ OnChart c #
         [SendMessageStream
            (ToolResults [\<lparr>resp_id = ''c1'', resp_name = ''getStockChart'',
               resp_result = chart_result ''btc'' (price (last (data c)))\<rparr>]),
          OnChunk ''Here is the chart.'']"
proof -
  define call where "call = chart_call ''c1'' ''btc'' ''1W''"
  define t where "t = \<lparr>fullTextResponse = [], sources = [], draws = 0,
             history = [UserText ''Show BTC''],
             events = [SendMessageStream (UserText ''Show BTC'')]\<rparr>"
  obtain c k' where ex: "execute_call half call t =
      Inr (t\<lparr>draws := k', events := events t @ [OnChart c]\<rparr>,
           Some \<lparr>resp_id = ''c1'', resp_name = ''getStockChart'',
                 resp_result = chart_result ''btc'' (price (last (data c)))\<rparr>)"
    unfolding call_def
    using chart_call_executes [of "''btc''" "''1W''" half "''c1''" t] by auto
  define r where "r = \<lparr>resp_id = ''c1'', resp_name = ''getStockChart'',
      resp_result = chart_result ''btc'' (price (last (data c)))\<rparr>"
  define t1 where "t1 = t\<lparr>draws := k', events := events t @ [OnChart c]\<rparr>"
  have calls: "execute_calls half [call] t [] = Inr (t1, [r])"
    using ex by (simp add: r_def t1_def)
  have chunk: "process_chunk half chart_model (calls_chunk [call]) t =
      submit_responses chart_model [r] t1"
    by (simp add: process_chunk_def handle_text_def handle_grounding_def
        handle_function_calls_def calls_chunk_def calls del: execute_calls.simps)
  define t2 where "t2 = state_reached (submit_responses chart_model [r] t1)"
  have ev: "events t2 =
      [SendMessageStream (UserText ''Show BTC''), OnChart c,
       SendMessageStream (ToolResults [r]), OnChunk ''Here is the chart.'']"
    unfolding t2_def
    by (simp add: submit_responses_state t1_def t_def chart_model_def texts_of_def text_chunk_def)
  have ok: "submit_responses chart_model [r] t1 = Inr t2"
    unfolding t2_def
    by (simp add: submit_responses_def Let_def t1_def t_def chart_model_def)
  have loop: "stream_loop half chart_model [calls_chunk [call]] t = Inr t2"
    by (simp add: chunk ok)
  have first: "chart_model [UserText ''Show BTC''] = ([calls_chunk [call]], None)"
    by (simp add: chart_model_def call_def)
  have "trace (sendMessage half chart_model 0 started_service ''Show BTC'') = events t2"
    by (simp add: sendMessage_def started_service_def initializeChat_def
        GeminiService_constructor_def first loop [unfolded t_def] Let_def
        del: stream_loop.simps)
  with ev have tr: "trace (sendMessage half chart_model 0 started_service ''Show BTC'') =
         [SendMessageStream (UserText ''Show BTC'')] @ OnChart c #
         [SendMessageStream (ToolResults [r]), OnChunk ''Here is the chart.'']"
    by simp
  show ?thesis
  proof (rule exI)
    show "trace (sendMessage half chart_model 0 started_service ''Show BTC'') =
         [SendMessageStream (UserText ''Show BTC'')] @ OnChart c #
         [SendMessageStream
            (ToolResults [\<lparr>resp_id = ''c1'', resp_name = ''getStockChart'',
               resp_result = chart_result ''btc'' (price (last (data c)))\<rparr>]),
          OnChunk ''Here is the chart.'']"
      using tr unfolding r_def .
  qed
qed

lemma chart_then_no_args_turn:
  "\<exists>c. trace (sendMessage half chart_then_no_args_model 0 started_service ''Show BTC'') =
         [SendMessageStream (UserText ''Show BTC'')] @ OnChart c #
         [ConsoleError ''Gemini interaction error:''] \<and>
       returned (sendMessage half chart_then_no_args_model 0 started_service ''Show BTC'') =
         Inl TypeError"
proof -
  define call where "call = chart_call ''c1'' ''btc'' ''1W''"
  define t where "t = \<lparr>fullTextResponse = [], sources = [], draws = 0,
             history = [UserText ''Show BTC''],
             events = [SendMessageStream (UserText ''Show BTC'')]\<rparr>"
  obtain c k' where ex: "execute_call half call t =
      Inr (t\<lparr>draws := k', events := events t @ [OnChart c]\<rparr>,
           Some \<lparr>resp_id = ''c1'', resp_name = ''getStockChart'',
                 resp_result = chart_result ''btc'' (price (last (data c)))\<rparr>)"
    unfolding call_def
    using chart_call_executes [of "''btc''" "''1W''" half "''c1''" t] by auto
  define t1 where "t1 = t\<lparr>draws := k', events := events t @ [OnChart c]\<rparr>"
  have n: "execute_call half no_args_price_call t1 = Inl (TypeError, t1)"
    by (rule execute_call_no_args) (simp add: no_args_price_call_def)
  have calls: "execute_calls half [call, no_args_price_call] t [] = Inl (TypeError, t1)"
    using ex n by (simp add: t1_def)
  have loop: "stream_loop half chart_then_no_args_model
      [calls_chunk [call, no_args_price_call]] t = Inl (TypeError, t1)"
    by (simp add: process_chunk_def handle_text_def handle_grounding_def
        handle_function_calls_def calls_chunk_def calls del: execute_calls.simps)
  have first: "chart_then_no_args_model [UserText ''Show BTC''] =
      ([calls_chunk [call, no_args_price_call]], None)"
    by (simp add: chart_then_no_args_model_def call_def)
  have out: "trace (sendMessage half chart_then_no_args_model 0 started_service ''Show BTC'') =
         events t1 @ [ConsoleError ''Gemini interaction error:''] \<and>
       returned (sendMessage half chart_then_no_args_model 0 started_service ''Show BTC'') =
         Inl TypeError"
    by (simp add: sendMessage_def started_service_def initializeChat_def
        GeminiService_constructor_def first loop [unfolded t_def] Let_def fail_turn_def
        del: stream_loop.simps)
  have ev: "events t1 = [SendMessageStream (UserText ''Show BTC''), OnChart c]"
    by (simp add: t1_def t_def)
  show ?thesis
  proof (rule exI, rule conjI)
    show "trace (sendMessage half chart_then_no_args_model 0 started_service ''Show BTC'') =
         [SendMessageStream (UserText ''Show BTC'')] @ OnChart c #
         [ConsoleError ''Gemini interaction error:'']"
      using out ev by simp
    show "returned (sendMessage half chart_then_no_args_model 0 started_service ''Show BTC'') =
         Inl TypeError"
      using out by (rule conjunct2)
  qed
qed

section \<open>Further facts about batches\<close>

lemma submitted_batches_append:
  "submitted_batches (xs @ ys) = submitted_batches xs @ submitted_batches ys"
  by (induction xs rule: submitted_batches.induct) simp_all

lemma submitted_batches_OnChart: "submitted_batches (map OnChart cs) = []"
  by (induction cs) simp_all

lemma submitted_batches_OnChunk: "submitted_batches (map OnChunk ss) = []"
  by (induction ss) simp_all

lemma execute_calls_unknown:
  "\<forall>x\<in>set calls. \<not> registered (call_name x) \<and> call_args x \<noteq> None \<Longrightarrow>
     execute_calls rt calls t rs = Inr (t, rs)"
proof (induction calls arbitrary: rs)
  case Nil
  show ?case by simp
next
  case (Cons call calls)
  from Cons.prems obtain args where "\<not> registered (call_name call)" "call_args call = Some args"
    by auto
  from execute_call_unknown [OF this] have "execute_call rt call t = Inr (t, None)" .
  moreover from Cons.prems have "\<forall>x\<in>set calls. \<not> registered (call_name x) \<and> call_args x \<noteq> None"
    by simp
  from Cons.IH [OF this] have "execute_calls rt calls t rs = Inr (t, rs)" .
  ultimately show ?case by simp
qed

lemma handle_function_calls_batches:
  assumes "chunk_functionCalls c = Some calls"
  shows "case execute_calls rt calls t [] of
      Inl (e, t') \<Rightarrow>
        handle_function_calls rt m c t = Inl (e, t') \<and>
        submitted_batches (events t') = submitted_batches (events t)
    | Inr (t', rs) \<Rightarrow>
        map resp_id rs = map call_id (filter is_registered_call calls) \<and>
        map resp_name rs = map call_name (filter is_registered_call calls) \<and>
        submitted_batches (events (state_reached (handle_function_calls rt m c t))) =
          submitted_batches (events t) @ (if rs = [] then [] else [rs])"
proof -
  note h = handle_function_calls_batch [OF assms, of rt m t]
  obtain chs where b:
    "events (executor_state (execute_calls rt calls t [])) = events t @ map OnChart chs"
    "case execute_calls rt calls t [] of
        Inl x \<Rightarrow> True
      | Inr (t', rs') \<Rightarrow>
          (\<exists>new. rs' = [] @ new \<and>
             map resp_id new = map call_id (filter is_registered_call calls) \<and>
             map resp_name new = map call_name (filter is_registered_call calls) \<and>
             (\<forall>c\<in>set chs. \<exists>fr\<in>set new. summarises fr c))"
    using execute_calls_effect [of rt calls t "[]"] by (elim exE conjE) (rule that, assumption+)
  show ?thesis
  proof (cases "execute_calls rt calls t []")
    case (Inl x)
    obtain e t' where x: "x = (e, t')" by (cases x)
    from Inl x b(1) have "events t' = events t @ map OnChart chs" by simp
    then have "submitted_batches (events t') = submitted_batches (events t)"
      by (simp add: submitted_batches_append submitted_batches_OnChart)
    with Inl x h show ?thesis by simp
  next
    case (Inr y)
    obtain t' rs where y: "y = (t', rs)" by (cases y)
    from Inr y b have ev: "events t' = events t @ map OnChart chs"
      and ids: "map resp_id rs = map call_id (filter is_registered_call calls)"
      and names: "map resp_name rs = map call_name (filter is_registered_call calls)"
      by simp_all
    from Inr y h have r: "handle_function_calls rt m c t =
        (if rs = [] then Inr t' else submit_responses m rs t')" by simp
    have "submitted_batches (events (state_reached (handle_function_calls rt m c t))) =
          submitted_batches (events t) @ (if rs = [] then [] else [rs])"
      using r ev
      by (simp add: submit_responses_state submitted_batches_append submitted_batches_OnChart
          submitted_batches_OnChunk)
    with Inr y ids names show ?thesis by simp
  qed
qed

lemma process_chunk_batches:
  assumes "process_chunk rt m c t = Inr t1"
  shows "length (submitted_batches (events t1)) =
     length (submitted_batches (events t)) + (if has_registered_call c then 1 else 0)"
proof -
  let ?t0 = "handle_grounding c (handle_text c t)"
  have ev1: "submitted_batches (events ?t0) = submitted_batches (events t)"
    by (simp add: handle_grounding_def handle_text_eq submitted_batches_append
        submitted_batches_OnChunk split: option.splits)
  from assms have h: "handle_function_calls rt m c ?t0 = Inr t1"
    by (simp add: process_chunk_def)
  show ?thesis
  proof (cases "chunk_functionCalls c")
    case None
    with h have "t1 = ?t0" by (simp add: handle_function_calls_def)
    with ev1 None show ?thesis by (simp add: has_registered_call_def)
  next
    case (Some calls)
    note b = handle_function_calls_batches [OF Some, where rt = rt and t = ?t0 and m = m]
    show ?thesis
    proof (cases "execute_calls rt calls ?t0 []")
      case (Inl x)
      obtain e t' where "x = (e, t')" by (cases x)
      with Inl b h show ?thesis by simp
    next
      case (Inr y)
      obtain t' rs where y: "y = (t', rs)" by (cases y)
      from Inr y b have ids: "map resp_id rs = map call_id (filter is_registered_call calls)"
        and sub: "submitted_batches (events (state_reached (handle_function_calls rt m c ?t0))) =
          submitted_batches (events ?t0) @ (if rs = [] then [] else [rs])"
        by simp_all
      from ids have "(rs = []) = (filter is_registered_call calls = [])"
        by (metis map_is_Nil_conv)
      then show ?thesis
        using sub ev1 Some h by (simp add: has_registered_call_def)
    qed
  qed
qed

lemma stream_loop_batches:
  "stream_loop rt m cs t = Inr t' \<Longrightarrow>
     length (submitted_batches (events t')) =
       length (submitted_batches (events t)) + length (filter has_registered_call cs)"
proof (induction cs arbitrary: t)
  case Nil
  then show ?case by simp
next
  case (Cons c cs)
  from Cons.prems obtain t1 where p: "process_chunk rt m c t = Inr t1"
    and r: "stream_loop rt m cs t1 = Inr t'"
    by (auto split: sum.splits)
  from process_chunk_batches [OF p]
  have "length (submitted_batches (events t1)) =
     length (submitted_batches (events t)) + (if has_registered_call c then 1 else 0)" .
  with Cons.IH [OF r] show ?case by simp
qed

lemma toUpperCase_UNKNOWN: "toUpperCase ''UNKNOWN'' = ''UNKNOWN''"
  by (simp add: toUpperCase_def to_upper_def)

lemma first_exchange_rejected:
  assumes "m ((case chatSession (if chatSession svc = None then initializeChat svc else svc) of
                 None \<Rightarrow> [] | Some ch \<Rightarrow> chat_history ch) @ [UserText msg]) = ([], Some e)"
  shows "returned (sendMessage rt m k svc msg) = Inl e \<and>
         trace (sendMessage rt m k svc msg) =
           [SendMessageStream (UserText msg), ConsoleError ''Gemini interaction error:'']"
  using assms by (simp add: sendMessage_def Let_def fail_turn_def)


section \<open>The claims\<close>

subsection \<open>C8, C9, C10: the generated chart\<close>

text \<open>
  C8. For every generated chart with points \<open>p0, ..., pn\<close> the trend is \<open>up\<close> exactly when
  the price of \<open>pn\<close> is greater than the price of \<open>p0\<close>, \<open>down\<close> exactly when it is less,
  and \<open>neutral\<close> otherwise. The generator returns a chart for every symbol that is a string
  and every period, and its series is never empty, so that \<open>p0\<close> and \<open>pn\<close> exist.
\<close>

theorem trend_derivation:
  "case generateMockChartData rt k (JsString sy) p of
     Inl e \<Rightarrow> False
   | Inr (c, k') \<Rightarrow>
       data c \<noteq> [] \<and>
       (trend c = up) = (price (last (data c)) > price (hd (data c))) \<and>
       (trend c = down) = (price (last (data c)) < price (hd (data c))) \<and>
       (trend c = neutral) = (\<not> price (last (data c)) > price (hd (data c)) \<and>
                              \<not> price (last (data c)) < price (hd (data c)))"
proof -
  obtain c where c: "generateMockChartData rt k (JsString sy) p = Inr (c, k + 2 * points_of p + 3)"
    "length (data c) = Suc (points_of p)"
    "trend c = trend_of (price (hd (data c))) (price (last (data c)))"
    using generate_chart [of rt k sy p] by blast
  from c(2) have "data c \<noteq> []" by auto
  then show ?thesis using c(1,3) by (simp add: trend_of_def)
qed

theorem trend_derivation_witness:
  "case generateMockChartData half 0 (JsString ''btc'') (JsString ''1W'') of
     Inl e \<Rightarrow> False
   | Inr (c, k') \<Rightarrow>
       data c \<noteq> [] \<and>
       (trend c = up) = (price (last (data c)) > price (hd (data c))) \<and>
       (trend c = down) = (price (last (data c)) < price (hd (data c))) \<and>
       (trend c = neutral) = (\<not> price (last (data c)) > price (hd (data c)) \<and>
                              \<not> price (last (data c)) < price (hd (data c)))"
  by (rule trend_derivation)

text \<open>
  C9. A chart generated for the period \<open>1W\<close> has exactly 8 points, labelled with the dates
  of the 7 days before today and of today, in this order; and the number of points of a
  chart is a function of the period alone: two generations for the same period, with any
  runtimes (random numbers and rounding), any numbers of earlier draws and any symbols,
  give series of the same length.
\<close>

theorem point_count_of_period:
  "\<exists>c1 k1 c2 k2.
     generateMockChartData rt1 n1 (JsString sy1) p = Inr (c1, k1) \<and>
     generateMockChartData rt2 n2 (JsString sy2) p = Inr (c2, k2) \<and>
     length (data c1) = length (data c2) \<and>
     (p = JsString ''1W'' \<longrightarrow>
        length (data c1) = 8 \<and>
        map date (data c1) =
          map (\<lambda>i. LocaleDateString (DaysBefore i)) [7, 6, 5, 4, 3, 2, 1, 0])"
proof -
  obtain c1 where c1: "generateMockChartData rt1 n1 (JsString sy1) p = Inr (c1, n1 + 2 * points_of p + 3)"
    "length (data c1) = Suc (points_of p)"
    using generate_chart [of rt1 n1 sy1 p] by blast
  obtain c2 where c2: "generateMockChartData rt2 n2 (JsString sy2) p = Inr (c2, n2 + 2 * points_of p + 3)"
    "length (data c2) = Suc (points_of p)"
    using generate_chart [of rt2 n2 sy2 p] by blast
  have week: "p = JsString ''1W'' \<longrightarrow>
        length (data c1) = 8 \<and>
        map date (data c1) =
          map (\<lambda>i. LocaleDateString (DaysBefore i)) [7, 6, 5, 4, 3, 2, 1, 0]"
  proof
    assume w: "p = JsString ''1W''"
    have u: "rev [0..<Suc 7] = [7, 6, 5, 4, 3, 2, 1, 0::nat]"
      by (simp add: eval_nat_numeral)
    from generate_chart_dates [OF c1(1)] w
    have "map date (data c1) = map (point_label (JsString ''1W'')) (rev [0..<Suc 7])"
      by (simp add: points_of_cases)
    then have "map date (data c1) =
          map (\<lambda>i. LocaleDateString (DaysBefore i)) [7, 6, 5, 4, 3, 2, 1, 0]"
      unfolding u by (simp add: point_label_def shifted_date_def)
    with c1(2) w show "length (data c1) = 8 \<and>
        map date (data c1) =
          map (\<lambda>i. LocaleDateString (DaysBefore i)) [7, 6, 5, 4, 3, 2, 1, 0]"
      by (simp add: points_of_cases)
  qed
  from c1 c2 week show ?thesis by auto
qed

theorem point_count_of_period_witness:
  "\<exists>c1 k1 c2 k2.
     generateMockChartData half 0 (JsString ''btc'') (JsString ''1W'') = Inr (c1, k1) \<and>
     generateMockChartData (half\<lparr>math_random := \<lambda>k. 1 / 4\<rparr>) 5 (JsString ''eth'') (JsString ''1W'') =
       Inr (c2, k2) \<and>
     length (data c1) = length (data c2) \<and> length (data c1) = 8 \<and>
     map date (data c1) =
       map (\<lambda>i. LocaleDateString (DaysBefore i)) [7, 6, 5, 4, 3, 2, 1, 0]"
  using point_count_of_period [of half 0 "''btc''" "JsString ''1W''"
      "half\<lparr>math_random := \<lambda>k. 1 / 4\<rparr>" 5 "''eth''"]
  by simp

text \<open>
  C10. For every symbol that is a string and every period the generator returns a chart
  (for such a symbol none of its failing branches can be reached); the period of the
  chart is the given
  period, which is not checked against the enumerated periods; the chart has 25 points
  for \<open>1D\<close>, 8 for \<open>1W\<close>, 31 for \<open>1M\<close>, 13 for \<open>1Y\<close> and 31 for any other string (and for any
  value that is not a string).
\<close>

theorem chart_total_period_and_count:
  "\<exists>c k'. generateMockChartData rt k (JsString sy) p = Inr (c, k') \<and> period c = p \<and>
     length (data c) =
       (if p = JsString ''1D'' then 25 else if p = JsString ''1W'' then 8
        else if p = JsString ''1M'' then 31 else if p = JsString ''1Y'' then 13 else 31)"
proof -
  obtain c where c: "generateMockChartData rt k (JsString sy) p = Inr (c, k + 2 * points_of p + 3)"
    "period c = p" "length (data c) = Suc (points_of p)"
    using generate_chart [of rt k sy p] by blast
  show ?thesis using c by (auto simp: points_of_cases)
qed

theorem chart_total_period_and_count_witness:
  "\<exists>c k'. generateMockChartData half 0 (JsString ''btc'') (JsString ''5Y'') = Inr (c, k') \<and>
     period c = JsString ''5Y'' \<and> length (data c) = 31"
  using chart_total_period_and_count [of half 0 "''btc''" "JsString ''5Y''"]
  by simp

subsection \<open>C7: missing arguments\<close>

text \<open>
  When a request with a registered name carries an argument object, a missing argument
  gets its default: a missing \<open>symbol\<close> becomes \<open>UNKNOWN\<close>, in the chart that is shown and
  in the text of the result, for both tools; a missing \<open>period\<close> of \<open>getStockChart\<close> becomes
  \<open>1M\<close>, which gives a chart of 31 points, when the symbol is missing or a string.
\<close>

lemma present_arguments_get_defaults:
  assumes "call_args call = Some args"
  shows
  "(call_name call = ''getStockChart'' \<and> args ''symbol'' = None \<longrightarrow>
      (\<exists>c k'. execute_call rt call t =
                Inr (t\<lparr>draws := k', events := events t @ [OnChart c]\<rparr>,
                     Some \<lparr>resp_id = call_id call, resp_name = ''getStockChart'',
                           resp_result = chart_result ''UNKNOWN'' (price (last (data c)))\<rparr>) \<and>
              symbol c = ''UNKNOWN'')) \<and>
   (call_name call = ''getStockChart'' \<and> args ''period'' = None \<and>
    value_or (args ''symbol'') (JsString ''UNKNOWN'') = JsString sy \<longrightarrow>
      (\<exists>c k' fr. execute_call rt call t =
                   Inr (t\<lparr>draws := k', events := events t @ [OnChart c]\<rparr>, Some fr) \<and>
                 period c = JsString ''1M'' \<and> length (data c) = 31)) \<and>
   (call_name call = ''getStockPrice'' \<and> args ''symbol'' = None \<longrightarrow>
      execute_call rt call t =
        Inr (t\<lparr>draws := draws t + 1\<rparr>,
             Some \<lparr>resp_id = call_id call, resp_name = ''getStockPrice'',
                   resp_result =
                     price_result ''UNKNOWN''
                       (toFixed2 (fl rt (fl rt (math_random rt (draws t) * 1000) + 10)))\<rparr>))"
proof (intro conjI impI)
  assume a: "call_name call = ''getStockChart'' \<and> args ''symbol'' = None"
  then have sy: "value_or (args ''symbol'') (JsString ''UNKNOWN'') = JsString ''UNKNOWN''"
    by (simp add: value_or_def)
  from a have n: "call_name call = ''getStockChart''" by simp
  from execute_call_chart [OF n assms sy, of rt t] obtain c k' where
    "execute_call rt call t =
       Inr (t\<lparr>draws := k', events := events t @ [OnChart c]\<rparr>,
            Some \<lparr>resp_id = call_id call, resp_name = ''getStockChart'',
                  resp_result = chart_result ''UNKNOWN'' (price (last (data c)))\<rparr>)"
    "symbol c = toUpperCase ''UNKNOWN''"
    by blast
  then have "execute_call rt call t =
       Inr (t\<lparr>draws := k', events := events t @ [OnChart c]\<rparr>,
            Some \<lparr>resp_id = call_id call, resp_name = ''getStockChart'',
                  resp_result = chart_result ''UNKNOWN'' (price (last (data c)))\<rparr>) \<and>
     symbol c = ''UNKNOWN''"
    by (simp add: toUpperCase_UNKNOWN)
  then show "\<exists>c k'. execute_call rt call t =
                Inr (t\<lparr>draws := k', events := events t @ [OnChart c]\<rparr>,
                     Some \<lparr>resp_id = call_id call, resp_name = ''getStockChart'',
                           resp_result = chart_result ''UNKNOWN'' (price (last (data c)))\<rparr>) \<and>
              symbol c = ''UNKNOWN''"
    by blast
next
  assume a: "call_name call = ''getStockChart'' \<and> args ''period'' = None \<and>
    value_or (args ''symbol'') (JsString ''UNKNOWN'') = JsString sy"
  then have p: "value_or (args ''period'') (JsString ''1M'') = JsString ''1M''"
    by (simp add: value_or_def)
  from a have n: "call_name call = ''getStockChart''"
    and s: "value_or (args ''symbol'') (JsString ''UNKNOWN'') = JsString sy" by simp_all
  from execute_call_chart [OF n assms s, of rt t] obtain c k' fr where
    "execute_call rt call t = Inr (t\<lparr>draws := k', events := events t @ [OnChart c]\<rparr>, Some fr)"
    "period c = value_or (args ''period'') (JsString ''1M'')"
    "length (data c) = Suc (points_of (value_or (args ''period'') (JsString ''1M'')))"
    by blast
  then have "execute_call rt call t =
       Inr (t\<lparr>draws := k', events := events t @ [OnChart c]\<rparr>, Some fr) \<and>
     period c = JsString ''1M'' \<and> length (data c) = 31"
    by (simp add: p points_of_cases)
  then show "\<exists>c k' fr. execute_call rt call t =
                   Inr (t\<lparr>draws := k', events := events t @ [OnChart c]\<rparr>, Some fr) \<and>
                 period c = JsString ''1M'' \<and> length (data c) = 31"
    by blast
next
  assume a: "call_name call = ''getStockPrice'' \<and> args ''symbol'' = None"
  then have "template_text rt (value_or (args ''symbol'') (JsString ''UNKNOWN'')) = ''UNKNOWN''"
    by (simp add: value_or_def template_text_def)
  with a execute_call_price [OF _ assms, of rt t]
  show "execute_call rt call t =
        Inr (t\<lparr>draws := draws t + 1\<rparr>,
             Some \<lparr>resp_id = call_id call, resp_name = ''getStockPrice'',
                   resp_result =
                     price_result ''UNKNOWN''
                       (toFixed2 (fl rt (fl rt (math_random rt (draws t) * 1000) + 10)))\<rparr>)"
    by simp
qed

lemma bare_price_request_gets_default:
  "call_args bare_price_call = Some Map.empty \<and>
   execute_call half bare_price_call idle_state =
     Inr (idle_state\<lparr>draws := 1\<rparr>,
          Some \<lparr>resp_id = ''q0'', resp_name = ''getStockPrice'',
                resp_result = ''The current price of UNKNOWN is $510.00.''\<rparr>)"
  by (simp add: turn_defs bare_price_call_def idle_state_def)

lemma bare_chart_request_gets_defaults:
  "\<exists>c k' fr. execute_call half bare_chart_call idle_state =
       Inr (idle_state\<lparr>draws := k', events := events idle_state @ [OnChart c]\<rparr>, Some fr) \<and>
     period c = JsString ''1M'' \<and> length (data c) = 31"
proof -
  have a: "call_args bare_chart_call = Some Map.empty"
    and n: "call_name bare_chart_call = ''getStockChart''"
    by (simp_all add: bare_chart_call_def)
  have s: "value_or (Map.empty ''symbol'') (JsString ''UNKNOWN'') = JsString ''UNKNOWN''"
    by (simp add: value_or_def)
  from present_arguments_get_defaults [OF a, where rt = half and t = idle_state
      and sy = "''UNKNOWN''", THEN conjunct2, THEN conjunct1] n s
  show ?thesis by simp
qed

text \<open>
  A request for a tool that is not registered, without an argument object, raises as
  well: the arguments are read before the name is looked at.
\<close>

lemma unregistered_request_without_arguments:
  "\<not> registered (call_name no_args_weather_call) \<and>
   execute_call rt no_args_weather_call t = Inl (TypeError, t)"
  by (simp add: execute_call_no_args no_args_weather_call_def registered_iff)

text \<open>
  C7. The claim is that for every request with a registered name and a missing argument
  the executor substitutes a default instead of failing. The request
  \<open>no_args_price_call\<close> has a registered name and no argument object at all, so that its
  symbol is missing. The executor does not substitute \<open>UNKNOWN\<close>: it raises a \<open>TypeError\<close>
  when it reads the symbol, and the turn of \<open>no_args_model\<close>, which issues this request
  after a text, is aborted with this error.
\<close>

theorem request_without_arguments_raises:
  "call_name no_args_price_call = ''getStockPrice'' \<and>
   call_args no_args_price_call = None \<and>
   execute_call half no_args_price_call idle_state = Inl (TypeError, idle_state) \<and>
   returned (sendMessage half no_args_model 0 started_service ''Price?'') = Inl TypeError \<and>
   trace (sendMessage half no_args_model 0 started_service ''Price?'') =
     [SendMessageStream (UserText ''Price?''), OnChunk ''Let me check. '',
      ConsoleError ''Gemini interaction error:'']"
  by (simp add: no_args_turn execute_call_no_args no_args_price_call_def)

subsection \<open>C4: the full text and the delivered text\<close>

text \<open>
  C4. For every turn that completes successfully, the text of the returned result is the
  concatenation, in order, of all the texts delivered through \<open>onChunk\<close> during the turn,
  those of the streams that answer tool results included.
\<close>

theorem full_text_is_delivered_text:
  assumes "returned (sendMessage rt m k svc msg) = Inr r"
  shows "result_text r = concat (delivered (trace (sendMessage rt m k svc msg)))"
proof -
  obtain t :: turn_state where
    t: "fullTextResponse t = concat (delivered (events t))"
      "trace (sendMessage rt m k svc msg) = events t \<and>
       charts_settled (events t) \<and>
       returned (sendMessage rt m k svc msg) =
         Inr \<lparr>result_text = fullTextResponse t, result_sources = sources t\<rparr> \<or>
       trace (sendMessage rt m k svc msg) = events t @ [ConsoleError ''Gemini interaction error:''] \<and>
       charts_pending (events t) \<and>
       (\<exists>e. returned (sendMessage rt m k svc msg) = Inl e)"
    using sendMessage_effect [of rt m k svc msg] by blast
  from t(2) assms have "trace (sendMessage rt m k svc msg) = events t"
    and "result_text r = fullTextResponse t" by auto
  with t(1) show ?thesis by simp
qed

theorem full_text_is_delivered_text_witness:
  "returned (sendMessage half price_model 0 started_service ''Price of AAPL?'') =
     Inr \<lparr>result_text = ''Let me check. AAPL trades at $510.00.'', result_sources = []\<rparr> \<and>
   delivered (trace (sendMessage half price_model 0 started_service ''Price of AAPL?'')) =
     [''Let me check. '', ''AAPL trades at $510.00.''] \<and>
   ''Let me check. AAPL trades at $510.00.'' =
     concat (delivered (trace (sendMessage half price_model 0 started_service ''Price of AAPL?'')))"
proof -
  have h: "returned (sendMessage half price_model 0 started_service ''Price of AAPL?'') =
     Inr \<lparr>result_text = ''Let me check. AAPL trades at $510.00.'', result_sources = []\<rparr>"
    by (simp add: price_turn)
  have d: "delivered (trace (sendMessage half price_model 0 started_service ''Price of AAPL?'')) =
     [''Let me check. '', ''AAPL trades at $510.00.'']"
    by (simp add: price_turn)
  from full_text_is_delivered_text [OF h] h d show ?thesis by simp
qed


subsection \<open>C5: the chart is shown before its summary goes to the model\<close>

text \<open>
  C5. Every execution of the chart tool that returns has called \<open>onChart\<close>, once, with the
  generated chart, which is complete (its series is not empty), as the last thing before
  it returns, and it returns the result that summarises this chart with its latest
  price; an execution that raises has not called \<open>onChart\<close>; and the execution returns
  for every request that the executor can run. Whenever \<open>onChart\<close> is called in a turn,
  with a chart \<open>c\<close>, the chart is complete, and what follows the call in the turn is:
  possibly further calls of \<open>onChart\<close> (for later requests of the same batch), and then
  either the submission of the batch of results, which holds the summary of \<open>c\<close>, and only
  then anything else, or, when a later request of the batch raised, the log of the
  error, with which the turn ends, raising the error. So the chart is shown before its
  summary is returned for the model and before any text of the resumed stream is
  delivered; and since the trace holds what the turn did before it returned, before the
  result of the turn is returned.
\<close>

theorem chart_before_summary:
  "(call_name call = ''getStockChart'' \<and> execute_call rt call t = Inr (t', r) \<longrightarrow>
      (\<exists>ch k' fr. r = Some fr \<and>
                  t' = t\<lparr>draws := k', events := events t @ [OnChart ch]\<rparr> \<and>
                  data ch \<noteq> [] \<and> resp_id fr = call_id call \<and> summarises fr ch)) \<and>
   (call_name call = ''getStockChart'' \<and> execute_call rt call t = Inl (e, t') \<longrightarrow>
      events t' = events t) \<and>
   (call_name call = ''getStockChart'' \<and> well_formed_call call \<longrightarrow>
      (\<exists>t1 r1. execute_call rt call t = Inr (t1, r1))) \<and>
   (trace (sendMessage rt m k svc msg) = before @ OnChart c # after \<longrightarrow>
      data c \<noteq> [] \<and>
      ((\<exists>charts rs rest.
          after = map OnChart charts @ SendMessageStream (ToolResults rs) # rest \<and>
          (\<exists>fr\<in>set rs. summarises fr c)) \<or>
       (\<exists>charts. after = map OnChart charts @ [ConsoleError ''Gemini interaction error:'']) \<and>
       (\<exists>e. returned (sendMessage rt m k svc msg) = Inl e)))"
proof (intro conjI; rule impI)
  assume a: "call_name call = ''getStockChart'' \<and> execute_call rt call t = Inr (t', r)"
  then have n: "call_name call = ''getStockChart''"
    and ex: "execute_call rt call t = Inr (t', r)" by simp_all
  from ex obtain args where args: "call_args call = Some args"
    by (cases "call_args call") (simp_all add: execute_call_no_args)
  have "\<exists>s. value_or (args ''symbol'') (JsString ''UNKNOWN'') = JsString s"
  proof (rule ccontr)
    assume "\<not> (\<exists>s. value_or (args ''symbol'') (JsString ''UNKNOWN'') = JsString s)"
    then have "\<And>s. value_or (args ''symbol'') (JsString ''UNKNOWN'') \<noteq> JsString s" by blast
    from execute_call_chart_not_a_string [OF n args this, of rt t] ex show False by simp
  qed
  then obtain s where s: "value_or (args ''symbol'') (JsString ''UNKNOWN'') = JsString s" ..
  let ?k = "draws t + 2 * points_of (value_or (args ''period'') (JsString ''1M'')) + 3"
  obtain ch where ch: "data ch \<noteq> []"
    "execute_call rt call t =
       Inr (t\<lparr>draws := ?k, events := events t @ [OnChart ch]\<rparr>,
            Some \<lparr>resp_id = call_id call, resp_name = ''getStockChart'',
                  resp_result = chart_result s (price (last (data ch)))\<rparr>)"
    using execute_call_chart [OF n args s, of rt t] by blast
  let ?fr = "\<lparr>resp_id = call_id call, resp_name = ''getStockChart'',
              resp_result = chart_result s (price (last (data ch)))\<rparr>"
  from ch(2) ex have "r = Some ?fr \<and>
      t' = t\<lparr>draws := ?k, events := events t @ [OnChart ch]\<rparr> \<and>
      data ch \<noteq> [] \<and> resp_id ?fr = call_id call \<and> summarises ?fr ch"
    using ch(1) by (simp add: summarises_chart_result)
  then show "\<exists>ch k' fr. r = Some fr \<and>
                  t' = t\<lparr>draws := k', events := events t @ [OnChart ch]\<rparr> \<and>
                  data ch \<noteq> [] \<and> resp_id fr = call_id call \<and> summarises fr ch"
    by blast
next
  assume a: "call_name call = ''getStockChart'' \<and> execute_call rt call t = Inl (e, t')"
  then have n: "call_name call = ''getStockChart''"
    and ex: "execute_call rt call t = Inl (e, t')" by simp_all
  show "events t' = events t"
  proof (cases "call_args call")
    case None
    from execute_call_no_args [OF None, of rt t] ex show ?thesis by simp
  next
    case (Some args)
    have "\<And>s. value_or (args ''symbol'') (JsString ''UNKNOWN'') \<noteq> JsString s"
    proof
      fix s
      assume "value_or (args ''symbol'') (JsString ''UNKNOWN'') = JsString s"
      from execute_call_chart [OF n Some this, of rt t] ex show False by auto
    qed
    from execute_call_chart_not_a_string [OF n Some this, of rt t] ex show ?thesis by auto
  qed
next
  assume "call_name call = ''getStockChart'' \<and> well_formed_call call"
  then have "well_formed_call call" by simp
  then show "\<exists>t1 r1. execute_call rt call t = Inr (t1, r1)"
    by (rule execute_call_well_formed)
next
  assume tr: "trace (sendMessage rt m k svc msg) = before @ OnChart c # after"
  obtain tf :: turn_state where
    t: "trace (sendMessage rt m k svc msg) = events tf \<and>
        charts_settled (events tf) \<and>
        returned (sendMessage rt m k svc msg) =
          Inr \<lparr>result_text = fullTextResponse tf, result_sources = sources tf\<rparr> \<or>
        trace (sendMessage rt m k svc msg) = events tf @ [ConsoleError ''Gemini interaction error:''] \<and>
        charts_pending (events tf) \<and>
        (\<exists>e. returned (sendMessage rt m k svc msg) = Inl e)"
    using sendMessage_effect [of rt m k svc msg] by blast
  from t show "data c \<noteq> [] \<and>
      ((\<exists>charts rs rest.
          after = map OnChart charts @ SendMessageStream (ToolResults rs) # rest \<and>
          (\<exists>fr\<in>set rs. summarises fr c)) \<or>
       (\<exists>charts. after = map OnChart charts @ [ConsoleError ''Gemini interaction error:'']) \<and>
       (\<exists>e. returned (sendMessage rt m k svc msg) = Inl e))"
  proof
    assume ok: "trace (sendMessage rt m k svc msg) = events tf \<and>
        charts_settled (events tf) \<and>
        returned (sendMessage rt m k svc msg) =
          Inr \<lparr>result_text = fullTextResponse tf, result_sources = sources tf\<rparr>"
    with tr have "events tf = before @ OnChart c # after" and "charts_settled (events tf)"
      by simp_all
    then have "data c \<noteq> [] \<and>
      (\<exists>charts rs rest.
          after = map OnChart charts @ SendMessageStream (ToolResults rs) # rest \<and>
          (\<exists>fr\<in>set rs. summarises fr c))"
      unfolding charts_settled_def by blast
    then show ?thesis by blast
  next
    assume failed: "trace (sendMessage rt m k svc msg) =
          events tf @ [ConsoleError ''Gemini interaction error:''] \<and>
        charts_pending (events tf) \<and>
        (\<exists>e. returned (sendMessage rt m k svc msg) = Inl e)"
    with tr have eq: "events tf @ [ConsoleError ''Gemini interaction error:''] =
        before @ OnChart c # after"
      and p: "charts_pending (events tf)"
      and r: "\<exists>e. returned (sendMessage rt m k svc msg) = Inl e"
      by simp_all
    from charts_pending_console [OF p eq] r show ?thesis by blast
  qed
qed

theorem chart_before_summary_witness:
  "(\<exists>ch k' fr. execute_call half (chart_call ''c1'' ''btc'' ''1W'') idle_state =
       Inr (idle_state\<lparr>draws := k', events := events idle_state @ [OnChart ch]\<rparr>, Some fr) \<and>
     data ch \<noteq> [] \<and> resp_id fr = ''c1'' \<and> summarises fr ch) \<and>
   execute_call half \<lparr>call_id = ''c0'', call_name = ''getStockChart'', call_args = None\<rparr> idle_state =
     Inl (TypeError, idle_state) \<and>
   (\<exists>c. trace (sendMessage half chart_model 0 started_service ''Show BTC'') =
         [SendMessageStream (UserText ''Show BTC'')] @ OnChart c #
         [SendMessageStream
            (ToolResults [\<lparr>resp_id = ''c1'', resp_name = ''getStockChart'',
               resp_result = chart_result ''btc'' (price (last (data c)))\<rparr>]),
          OnChunk ''Here is the chart.''] \<and>
       data c \<noteq> []) \<and>
   (\<exists>c. trace (sendMessage half chart_then_no_args_model 0 started_service ''Show BTC'') =
         [SendMessageStream (UserText ''Show BTC'')] @ OnChart c #
         [ConsoleError ''Gemini interaction error:''] \<and>
       returned (sendMessage half chart_then_no_args_model 0 started_service ''Show BTC'') =
         Inl TypeError \<and>
       data c \<noteq> [])"
proof (intro conjI)
  let ?call = "chart_call ''c1'' ''btc'' ''1W''"
  have n: "call_name ?call = ''getStockChart''" and i: "call_id ?call = ''c1''"
    by (simp_all add: chart_call_def)
  have w: "well_formed_call ?call"
    by (simp add: well_formed_call_def chart_call_def value_or_def)
  have "\<exists>t1 r1. execute_call half ?call idle_state = Inr (t1, r1)"
    using chart_before_summary [where call = ?call and rt = half and t = idle_state] n w
    by blast
  then obtain t1 r1 where ex: "execute_call half ?call idle_state = Inr (t1, r1)" by blast
  have "\<exists>ch k' fr. r1 = Some fr \<and>
          t1 = idle_state\<lparr>draws := k', events := events idle_state @ [OnChart ch]\<rparr> \<and>
          data ch \<noteq> [] \<and> resp_id fr = call_id ?call \<and> summarises fr ch"
    using chart_before_summary [where call = ?call and rt = half and t = idle_state
        and t' = t1 and r = r1] n ex
    by blast
  then obtain ch k' fr where f: "r1 = Some fr"
    "t1 = idle_state\<lparr>draws := k', events := events idle_state @ [OnChart ch]\<rparr>"
    "data ch \<noteq> []" "resp_id fr = call_id ?call" "summarises fr ch"
    by (elim exE conjE) (rule that, assumption+)
  have "execute_call half ?call idle_state =
       Inr (idle_state\<lparr>draws := k', events := events idle_state @ [OnChart ch]\<rparr>, Some fr) \<and>
     data ch \<noteq> [] \<and> resp_id fr = ''c1'' \<and> summarises fr ch"
    using ex f by (simp add: i)
  then show "\<exists>ch k' fr. execute_call half ?call idle_state =
       Inr (idle_state\<lparr>draws := k', events := events idle_state @ [OnChart ch]\<rparr>, Some fr) \<and>
     data ch \<noteq> [] \<and> resp_id fr = ''c1'' \<and> summarises fr ch"
    by (intro exI)
next
  show "execute_call half \<lparr>call_id = ''c0'', call_name = ''getStockChart'', call_args = None\<rparr>
      idle_state = Inl (TypeError, idle_state)"
    by (simp add: execute_call_no_args)
next
  from chart_turn obtain c where
    tr: "trace (sendMessage half chart_model 0 started_service ''Show BTC'') =
         [SendMessageStream (UserText ''Show BTC'')] @ OnChart c #
         [SendMessageStream
            (ToolResults [\<lparr>resp_id = ''c1'', resp_name = ''getStockChart'',
               resp_result = chart_result ''btc'' (price (last (data c)))\<rparr>]),
          OnChunk ''Here is the chart.'']"
    by (elim exE) (rule that, assumption)
  have d: "data c \<noteq> []"
    by (rule chart_before_summary [where rt = half and m = chart_model and k = 0
        and svc = started_service and msg = "''Show BTC''"
        and before = "[SendMessageStream (UserText ''Show BTC'')]" and c = c
        and after = "[SendMessageStream
            (ToolResults [\<lparr>resp_id = ''c1'', resp_name = ''getStockChart'',
               resp_result = chart_result ''btc'' (price (last (data c)))\<rparr>]),
          OnChunk ''Here is the chart.'']",
        THEN conjunct2, THEN conjunct2, THEN conjunct2, THEN mp, THEN conjunct1])
      (rule tr)
  show "\<exists>c. trace (sendMessage half chart_model 0 started_service ''Show BTC'') =
         [SendMessageStream (UserText ''Show BTC'')] @ OnChart c #
         [SendMessageStream
            (ToolResults [\<lparr>resp_id = ''c1'', resp_name = ''getStockChart'',
               resp_result = chart_result ''btc'' (price (last (data c)))\<rparr>]),
          OnChunk ''Here is the chart.''] \<and>
       data c \<noteq> []"
  proof (rule exI, rule conjI)
    show "trace (sendMessage half chart_model 0 started_service ''Show BTC'') =
         [SendMessageStream (UserText ''Show BTC'')] @ OnChart c #
         [SendMessageStream
            (ToolResults [\<lparr>resp_id = ''c1'', resp_name = ''getStockChart'',
               resp_result = chart_result ''btc'' (price (last (data c)))\<rparr>]),
          OnChunk ''Here is the chart.'']"
      by (rule tr)
    show "data c \<noteq> []" by (rule d)
  qed
next
  from chart_then_no_args_turn obtain c where
    tr: "trace (sendMessage half chart_then_no_args_model 0 started_service ''Show BTC'') =
         [SendMessageStream (UserText ''Show BTC'')] @ OnChart c #
         [ConsoleError ''Gemini interaction error:'']"
    and rr: "returned (sendMessage half chart_then_no_args_model 0 started_service ''Show BTC'') =
         Inl TypeError"
    by (elim exE conjE) (rule that, assumption+)
  have d: "data c \<noteq> []"
    by (rule chart_before_summary [where rt = half and m = chart_then_no_args_model and k = 0
        and svc = started_service and msg = "''Show BTC''"
        and before = "[SendMessageStream (UserText ''Show BTC'')]" and c = c
        and after = "[ConsoleError ''Gemini interaction error:'']",
        THEN conjunct2, THEN conjunct2, THEN conjunct2, THEN mp, THEN conjunct1])
      (rule tr)
  show "\<exists>c. trace (sendMessage half chart_then_no_args_model 0 started_service ''Show BTC'') =
         [SendMessageStream (UserText ''Show BTC'')] @ OnChart c #
         [ConsoleError ''Gemini interaction error:''] \<and>
       returned (sendMessage half chart_then_no_args_model 0 started_service ''Show BTC'') =
         Inl TypeError \<and>
       data c \<noteq> []"
  proof (rule exI, intro conjI)
    show "trace (sendMessage half chart_then_no_args_model 0 started_service ''Show BTC'') =
         [SendMessageStream (UserText ''Show BTC'')] @ OnChart c #
         [ConsoleError ''Gemini interaction error:'']"
      by (rule tr)
    show "returned (sendMessage half chart_then_no_args_model 0 started_service ''Show BTC'') =
         Inl TypeError"
      by (rule rr)
    show "data c \<noteq> []" by (rule d)
  qed
qed


subsection \<open>C1: a request for a tool that is not registered\<close>

text \<open>
  C1 as stated fails: for the request \<open>weather_call\<close>, whose name is not registered, the
  executor returns no result at all; in the turn of \<open>weather_model\<close>, which issues this
  request, nothing is submitted back to the model and the turn completes with an empty
  text, without any explanation.
\<close>

theorem unknown_tool_gets_no_result:
  "\<not> registered (call_name weather_call) \<and>
   execute_call half weather_call idle_state = Inr (idle_state, None) \<and>
   submitted_batches (trace (sendMessage half weather_model 0 started_service ''Weather in Paris?'')) = [] \<and>
   returned (sendMessage half weather_model 0 started_service ''Weather in Paris?'') =
     Inr \<lparr>result_text = [], result_sources = []\<rparr>"
proof -
  have n: "\<not> registered (call_name weather_call)"
    by (simp add: registered_iff weather_call_def)
  have a: "call_args weather_call = Some [''city'' \<mapsto> JsString ''Paris'']"
    by (simp add: weather_call_def)
  from n execute_call_unknown [OF n a, of half idle_state] show ?thesis
    by (simp add: weather_turn)
qed

text \<open>
  C1, amended. For every tool invocation request that carries an argument object and
  whose name matches no registered tool, the executor does not raise and produces no
  result for it: the request is skipped and the state is unchanged. A batch that holds
  only such requests submits nothing back to the model, and the orchestrator goes on
  with the next fragment of the same stream; the turn is not aborted.
\<close>

theorem unknown_tools_are_skipped:
  "(\<not> registered (call_name call) \<and> call_args call \<noteq> None \<longrightarrow>
      execute_call rt call t = Inr (t, None)) \<and>
   (chunk_functionCalls c = Some calls \<and>
    (\<forall>x\<in>set calls. \<not> registered (call_name x) \<and> call_args x \<noteq> None) \<longrightarrow>
      execute_calls rt calls t [] = Inr (t, []) \<and>
      handle_function_calls rt m c t = Inr t \<and>
      stream_loop rt m (c # rest) t =
        stream_loop rt m rest (handle_grounding c (handle_text c t)))"
proof (intro conjI; rule impI)
  assume "\<not> registered (call_name call) \<and> call_args call \<noteq> None"
  then obtain args where "\<not> registered (call_name call)" "call_args call = Some args"
    by auto
  then show "execute_call rt call t = Inr (t, None)"
    by (rule execute_call_unknown)
next
  assume a: "chunk_functionCalls c = Some calls \<and>
    (\<forall>x\<in>set calls. \<not> registered (call_name x) \<and> call_args x \<noteq> None)"
  then have u: "\<And>t. execute_calls rt calls t [] = Inr (t, [])"
    by (simp add: execute_calls_unknown)
  from a u have h: "\<And>t. handle_function_calls rt m c t = Inr t"
    by (simp add: handle_function_calls_def)
  have s: "stream_loop rt m (c # rest) t =
      stream_loop rt m rest (handle_grounding c (handle_text c t))"
    using h by (simp add: process_chunk_def)
  from u h s show "execute_calls rt calls t [] = Inr (t, []) \<and>
      handle_function_calls rt m c t = Inr t \<and>
      stream_loop rt m (c # rest) t =
        stream_loop rt m rest (handle_grounding c (handle_text c t))"
    by (intro conjI)
qed

theorem unknown_tools_are_skipped_witness:
  "\<not> registered (call_name weather_call) \<and> call_args weather_call \<noteq> None \<and>
   execute_call half weather_call idle_state = Inr (idle_state, None) \<and>
   chunk_functionCalls (calls_chunk [weather_call]) = Some [weather_call] \<and>
   execute_calls half [weather_call] idle_state [] = Inr (idle_state, []) \<and>
   handle_function_calls half weather_model (calls_chunk [weather_call]) idle_state = Inr idle_state \<and>
   stream_loop half weather_model [calls_chunk [weather_call], text_chunk ''Sorry.''] idle_state =
     Inr (idle_state\<lparr>fullTextResponse := ''Sorry.'',
            events := [SendMessageStream (UserText ''hello''), OnChunk ''Sorry.'']\<rparr>)"
proof -
  have n: "\<not> registered (call_name weather_call)"
    by (simp add: registered_iff weather_call_def)
  have a: "call_args weather_call \<noteq> None"
    by (simp add: weather_call_def)
  have c: "chunk_functionCalls (calls_chunk [weather_call]) = Some [weather_call]"
    by (simp add: calls_chunk_def)
  have r: "stream_loop half weather_model [text_chunk ''Sorry.'']
      (handle_grounding (calls_chunk [weather_call]) (handle_text (calls_chunk [weather_call]) idle_state)) =
     Inr (idle_state\<lparr>fullTextResponse := ''Sorry.'',
            events := [SendMessageStream (UserText ''hello''), OnChunk ''Sorry.'']\<rparr>)"
    by (simp add: process_chunk_def handle_function_calls_def handle_grounding_def handle_text_def
        calls_chunk_def text_chunk_def idle_state_def)
  show ?thesis
    using unknown_tools_are_skipped [where call = weather_call and rt = half and t = idle_state
        and c = "calls_chunk [weather_call]" and calls = "[weather_call]" and m = weather_model
        and rest = "[text_chunk ''Sorry.'']"]
    by (simp add: n a c r del: stream_loop.simps execute_calls.simps)
qed

subsection \<open>C2: one result per request, in order, in one message\<close>




subsection \<open>C3: the stream that answers the tool results\<close>

text \<open>
  C3 as stated fails: \<open>followup_model\<close> answers the result of the request \<open>p1\<close> with a
  fragment that holds a text and a further request, \<open>p2\<close>. The text is delivered; the
  request is neither executed nor resolved (no result for \<open>p2\<close> is ever submitted, and no
  random number is drawn for it), and the turn returns.
\<close>

theorem followup_request_is_ignored:
  "followup_model [UserText ''Prices?'',
      ToolResults [\<lparr>resp_id = ''p1'', resp_name = ''getStockPrice'',
         resp_result = ''The current price of AAPL is $510.00.''\<rparr>]] =
     ([\<lparr>chunk_text = Some ''One more lookup.'', chunk_groundingChunks = None,
        chunk_functionCalls = Some [price_call ''p2'' ''MSFT'']\<rparr>], None) \<and>
   submitted_ids (trace (sendMessage half followup_model 0 started_service ''Prices?'')) = [''p1''] \<and>
   draws_after (sendMessage half followup_model 0 started_service ''Prices?'') = 1 \<and>
   returned (sendMessage half followup_model 0 started_service ''Prices?'') =
     Inr \<lparr>result_text = ''One more lookup.'', result_sources = []\<rparr>"
  by (simp add: followup_turn followup_model_def)

text \<open>
  C3, amended. A resumed fragment sequence, obtained by submitting tool results, is not
  processed like the initial one: its non-empty texts are appended to the accumulated
  text and delivered through \<open>onChunk\<close>, in order, and nothing else is done with it; tool
  invocation requests and citations in it are ignored (no tool runs, no chart is shown,
  nothing further is submitted). The cycle of handling tools and streaming repeats within
  a turn once for every fragment of the initial sequence that holds a request for a
  registered tool.
\<close>

theorem resumed_stream_text_only:
  "events (state_reached (submit_responses m rs t)) =
     events t @ SendMessageStream (ToolResults rs) #
       map OnChunk (texts_of (fst (m (history t @ [ToolResults rs])))) \<and>
   fullTextResponse (state_reached (submit_responses m rs t)) =
     fullTextResponse t @ concat (texts_of (fst (m (history t @ [ToolResults rs])))) \<and>
   draws (state_reached (submit_responses m rs t)) = draws t \<and>
   sources (state_reached (submit_responses m rs t)) = sources t \<and>
   history (state_reached (submit_responses m rs t)) = history t @ [ToolResults rs] \<and>
   (stream_loop rt m cs t = Inr t' \<longrightarrow>
      length (submitted_batches (events t')) =
        length (submitted_batches (events t)) + length (filter has_registered_call cs))"
  by (simp add: submit_responses_state stream_loop_batches)

theorem resumed_stream_text_only_witness:
  "stream_loop half price_model
     [text_chunk ''Let me check. '', calls_chunk [price_call ''p1'' ''AAPL'']] idle_state =
     Inr (idle_state
       \<lparr>fullTextResponse := ''Let me check. AAPL trades at $510.00.'',
        draws := 1,
        history := [UserText ''hello'',
           ToolResults [\<lparr>resp_id = ''p1'', resp_name = ''getStockPrice'',
              resp_result = ''The current price of AAPL is $510.00.''\<rparr>]],
        events := [SendMessageStream (UserText ''hello''), OnChunk ''Let me check. '',
           SendMessageStream (ToolResults [\<lparr>resp_id = ''p1'', resp_name = ''getStockPrice'',
              resp_result = ''The current price of AAPL is $510.00.''\<rparr>]),
           OnChunk ''AAPL trades at $510.00.'']\<rparr>) \<and>
   length (filter has_registered_call
     [text_chunk ''Let me check. '', calls_chunk [price_call ''p1'' ''AAPL'']]) = 1 \<and>
   events (state_reached (submit_responses followup_model
      [\<lparr>resp_id = ''p1'', resp_name = ''getStockPrice'', resp_result = ''510.00''\<rparr>] idle_state)) =
     [SendMessageStream (UserText ''hello''),
      SendMessageStream (ToolResults
        [\<lparr>resp_id = ''p1'', resp_name = ''getStockPrice'', resp_result = ''510.00''\<rparr>]),
      OnChunk ''One more lookup.'']"
proof -
  let ?cs = "[text_chunk ''Let me check. '', calls_chunk [price_call ''p1'' ''AAPL'']]"
  let ?t' = "idle_state
       \<lparr>fullTextResponse := ''Let me check. AAPL trades at $510.00.'',
        draws := 1,
        history := [UserText ''hello'',
           ToolResults [\<lparr>resp_id = ''p1'', resp_name = ''getStockPrice'',
              resp_result = ''The current price of AAPL is $510.00.''\<rparr>]],
        events := [SendMessageStream (UserText ''hello''), OnChunk ''Let me check. '',
           SendMessageStream (ToolResults [\<lparr>resp_id = ''p1'', resp_name = ''getStockPrice'',
              resp_result = ''The current price of AAPL is $510.00.''\<rparr>]),
           OnChunk ''AAPL trades at $510.00.'']\<rparr>"
  let ?r = "\<lparr>resp_id = ''p1'', resp_name = ''getStockPrice'', resp_result = ''510.00''\<rparr>"
  have loop: "stream_loop half price_model ?cs idle_state = Inr ?t'"
    by (simp add: turn_defs price_model_def idle_state_def)
  have n: "length (filter has_registered_call ?cs) = 1"
    by (simp add: has_registered_call_def is_registered_call_def registered_iff
        text_chunk_def calls_chunk_def price_call_def)
  have ev: "events (state_reached (submit_responses followup_model [?r] idle_state)) =
     [SendMessageStream (UserText ''hello''), SendMessageStream (ToolResults [?r]),
      OnChunk ''One more lookup.'']"
    using resumed_stream_text_only [of followup_model "[?r]" idle_state half ?cs ?t']
    by (simp add: idle_state_def followup_model_def texts_of_def)
  from loop n ev show ?thesis by simp
qed

subsection \<open>C6: a missing API key\<close>

text \<open>
  C6 as stated fails: with no API key in the environment the constructor returns a
  service, whose key is the empty string, and the initialization of the session on this
  service creates the session. Nothing fails.
\<close>

theorem missing_key_does_not_fail:
  "GeminiService_constructor None =
     (\<lparr>apiKey = [], chatSession = None\<rparr>, [''API_KEY is missing from environment variables'']) \<and>
   initializeChat (fst (GeminiService_constructor None)) =
     \<lparr>apiKey = [],
      chatSession = Some \<lparr>chat_model = ''gemini-2.5-flash'', chat_tools = functionDeclarations,
                           chat_history = []\<rparr>\<rparr>"
  by (simp add: GeminiService_constructor_def initializeChat_def or_default_def truthy_def)

text \<open>
  C6, amended. If the API key is missing (undefined or empty), the constructor writes a
  line to the error console and goes on with the empty string as the key; the
  initialization of the session does not look at the key and creates the session. If the
  model rejects the first exchange of a turn, the error is logged and raised again to the
  caller, before any fragment is delivered.
\<close>

theorem missing_key_is_tolerated:
  assumes "\<not> truthy env_key"
  shows "GeminiService_constructor env_key =
           (\<lparr>apiKey = [], chatSession = None\<rparr>,
            [''API_KEY is missing from environment variables'']) \<and>
         chatSession (initializeChat (fst (GeminiService_constructor env_key))) =
           Some \<lparr>chat_model = ''gemini-2.5-flash'', chat_tools = functionDeclarations,
                 chat_history = []\<rparr> \<and>
         (m [UserText msg] = ([], Some e) \<longrightarrow>
            returned (sendMessage rt m k (fst (GeminiService_constructor env_key)) msg) = Inl e \<and>
            trace (sendMessage rt m k (fst (GeminiService_constructor env_key)) msg) =
              [SendMessageStream (UserText msg), ConsoleError ''Gemini interaction error:''])"
proof -
  have c: "GeminiService_constructor env_key =
           (\<lparr>apiKey = [], chatSession = None\<rparr>,
            [''API_KEY is missing from environment variables''])"
    using assms
    by (simp add: GeminiService_constructor_def or_default_def truthy_def split: option.splits)
  have i: "chatSession (initializeChat (fst (GeminiService_constructor env_key))) =
           Some \<lparr>chat_model = ''gemini-2.5-flash'', chat_tools = functionDeclarations,
                 chat_history = []\<rparr>"
    by (simp add: initializeChat_def)
  have f: "m [UserText msg] = ([], Some e) \<longrightarrow>
            returned (sendMessage rt m k (fst (GeminiService_constructor env_key)) msg) = Inl e \<and>
            trace (sendMessage rt m k (fst (GeminiService_constructor env_key)) msg) =
              [SendMessageStream (UserText msg), ConsoleError ''Gemini interaction error:'']"
  proof
    assume r: "m [UserText msg] = ([], Some e)"
    show "returned (sendMessage rt m k (fst (GeminiService_constructor env_key)) msg) = Inl e \<and>
            trace (sendMessage rt m k (fst (GeminiService_constructor env_key)) msg) =
              [SendMessageStream (UserText msg), ConsoleError ''Gemini interaction error:'']"
      by (rule first_exchange_rejected) (simp add: c initializeChat_def r)
  qed
  from c i f show ?thesis by simp
qed

theorem missing_key_is_tolerated_witness:
  "\<not> truthy (Some []) \<and>
   GeminiService_constructor (Some []) =
     (\<lparr>apiKey = [], chatSession = None\<rparr>, [''API_KEY is missing from environment variables'']) \<and>
   rejecting_model [UserText ''hello''] = ([], Some (ModelError ''API key not valid'')) \<and>
   returned (sendMessage half rejecting_model 0 (fst (GeminiService_constructor (Some []))) ''hello'') =
     Inl (ModelError ''API key not valid'') \<and>
   trace (sendMessage half rejecting_model 0 (fst (GeminiService_constructor (Some []))) ''hello'') =
     [SendMessageStream (UserText ''hello''), ConsoleError ''Gemini interaction error:'']"
proof -
  have a: "\<not> truthy (Some [])"
    by (simp add: truthy_def)
  have r: "rejecting_model [UserText ''hello''] = ([], Some (ModelError ''API key not valid''))"
    by (simp add: rejecting_model_def)
  note w = missing_key_is_tolerated [OF a, of rejecting_model "''hello''"
      "ModelError ''API key not valid''" half 0]
  from w have c: "GeminiService_constructor (Some []) =
     (\<lparr>apiKey = [], chatSession = None\<rparr>, [''API_KEY is missing from environment variables''])"
    by (rule conjunct1)
  from w r have x: "returned (sendMessage half rejecting_model 0
        (fst (GeminiService_constructor (Some []))) ''hello'') =
       Inl (ModelError ''API key not valid'') \<and>
     trace (sendMessage half rejecting_model 0 (fst (GeminiService_constructor (Some []))) ''hello'') =
       [SendMessageStream (UserText ''hello''), ConsoleError ''Gemini interaction error:'']"
    by blast
  from a c r x show ?thesis by blast
qed

end
